theory Spec2Isabelle
  imports Complex_Main "HOL-Library.Extended_Nat"
begin

section \<open>JavaScript values\<close>

text \<open>
  The register and the comparator work on JSON-shaped records. A value is one of the
  JavaScript kinds below. A number is a finite number, written as a rational, or \<open>NaN\<close>
  (the infinities and negative zero are left out); an object is the list of its own properties in
  enumeration order; a string is the list of its code units. Objects carry no identity:
  two objects are never the same reference, which is what \<open>strict_eq\<close> says. Inherited
  members (\<open>toString\<close>, \<open>constructor\<close>, ...) are not represented by \<open>member\<close>, so a
  property name read through it is assumed not to be one of them; the one inherited member
  the source does read, \<open>entries\<close> of an array in \<open>import\<close>, is modelled there.
\<close>

datatype jsval =
    JUndef
  | JNull
  | JBool bool
  | JNum rat
  | JNaN
  | JStr string
  | JArr "jsval list"
  | JObj "(string \<times> jsval) list"

datatype js_type = T_undefined | T_object | T_boolean | T_number | T_string

fun typeof :: "jsval \<Rightarrow> js_type" where
  "typeof JUndef = T_undefined"
| "typeof JNull = T_object"
| "typeof (JBool b) = T_boolean"
| "typeof (JNum n) = T_number"
| "typeof JNaN = T_number"
| "typeof (JStr s) = T_string"
| "typeof (JArr xs) = T_object"
| "typeof (JObj kvs) = T_object"

fun truthy :: "jsval \<Rightarrow> bool" where
  "truthy JUndef = False"
| "truthy JNull = False"
| "truthy (JBool b) = b"
| "truthy (JNum n) = (n \<noteq> 0)"
| "truthy JNaN = False"
| "truthy (JStr s) = (s \<noteq> [])"
| "truthy (JArr xs) = True"
| "truthy (JObj kvs) = True"

text \<open>The operator \<open>a || b\<close>.\<close>

definition or_else :: "jsval \<Rightarrow> jsval \<Rightarrow> jsval" where
  "or_else a b = (if truthy a then a else b)"

text \<open>
  The operator \<open>a === b\<close>: equality of primitives, except that \<open>NaN\<close> equals nothing,
  and identity of objects.
\<close>

fun strict_eq :: "jsval \<Rightarrow> jsval \<Rightarrow> bool" where
  "strict_eq (JArr xs) b = False"
| "strict_eq (JObj kvs) b = False"
| "strict_eq JNaN b = False"
| "strict_eq a b = (a = b)"

text \<open>
  The comparison of \<open>Array.prototype.includes\<close> (SameValueZero): as \<open>===\<close>, but \<open>NaN\<close>
  is the same as \<open>NaN\<close>.
\<close>

fun sameValueZero :: "jsval \<Rightarrow> jsval \<Rightarrow> bool" where
  "sameValueZero (JArr xs) b = False"
| "sameValueZero (JObj kvs) b = False"
| "sameValueZero a b = (a = b)"

fun isArray :: "jsval \<Rightarrow> bool" where
  "isArray (JArr xs) = True"
| "isArray v = False"

text \<open>Decimal rendering of an array index, as property names have it.\<close>

function index_key :: "nat \<Rightarrow> string" where
  "index_key n =
     (if n < 10 then [''0123456789'' ! n]
      else index_key (n div 10) @ [''0123456789'' ! (n mod 10)])"
  by pat_completeness auto
termination
  by (relation "measure id") auto

declare index_key.simps [simp del]

definition enumerate_keys :: "'a list \<Rightarrow> (string \<times> 'a) list" where
  "enumerate_keys xs = zip (map index_key [0..<length xs]) xs"

text \<open>\<open>Object.entries\<close> and \<open>Object.keys\<close> on a value that is neither null nor undefined.\<close>

fun Object_entries :: "jsval \<Rightarrow> (string \<times> jsval) list" where
  "Object_entries (JObj kvs) = kvs"
| "Object_entries (JArr xs) = enumerate_keys xs"
| "Object_entries (JStr s) = enumerate_keys (map (\<lambda>c. JStr [c]) s)"
| "Object_entries v = []"

definition Object_keys :: "jsval \<Rightarrow> string list" where
  "Object_keys v = map fst (Object_entries v)"

text \<open>
  A property read \<open>v[k]\<close>. On null and undefined the source either guards the read with
  \<open>?.\<close> (the result is undefined, as here) or throws, which the callers below model.
\<close>

fun member :: "jsval \<Rightarrow> string \<Rightarrow> jsval" where
  "member (JObj kvs) k = (case map_of kvs k of Some v \<Rightarrow> v | None \<Rightarrow> JUndef)"
| "member (JArr xs) k =
     (if k = ''length'' then JNum (of_nat (length xs))
      else case map_of (enumerate_keys xs) k of Some v \<Rightarrow> v | None \<Rightarrow> JUndef)"
| "member (JStr s) k =
     (if k = ''length'' then JNum (of_nat (length s))
      else case map_of (enumerate_keys s) k of Some c \<Rightarrow> JStr [c] | None \<Rightarrow> JUndef)"
| "member v k = JUndef"

text \<open>The elements of \<open>new Set(xs)\<close> in insertion order: the first occurrence of each.\<close>

definition Set_of :: "'a list \<Rightarrow> 'a list" where
  "Set_of xs = rev (remdups (rev xs))"

text \<open>
  \<open>JSON.stringify\<close>, up to the concrete characters: the result is the syntax tree of the
  text produced. Undefined has no text, is written \<open>null\<close> inside an array, and a
  property holding it is left out; \<open>NaN\<close> is written \<open>null\<close>. Two texts are equal exactly when their trees are.
\<close>

datatype json_text =
    TUndefined
  | TNull
  | TBool bool
  | TNum rat
  | TStr string
  | TArr "json_text list"
  | TObj "(string \<times> json_text) list"

fun JSON_stringify :: "jsval \<Rightarrow> json_text" where
  "JSON_stringify JUndef = TUndefined"
| "JSON_stringify JNull = TNull"
| "JSON_stringify (JBool b) = TBool b"
| "JSON_stringify (JNum n) = TNum n"
| "JSON_stringify JNaN = TNull"
| "JSON_stringify (JStr s) = TStr s"
| "JSON_stringify (JArr xs) =
     TArr (map (\<lambda>x. case JSON_stringify x of TUndefined \<Rightarrow> TNull | t \<Rightarrow> t) xs)"
| "JSON_stringify (JObj kvs) =
     TObj (filter (\<lambda>(k, t). t \<noteq> TUndefined) (map (\<lambda>(k, v). (k, JSON_stringify v)) kvs))"

text \<open>\<open>parts.join(sep)\<close> on strings.\<close>

fun join :: "string \<Rightarrow> string list \<Rightarrow> string" where
  "join sep [] = []"
| "join sep [x] = x"
| "join sep (x # y # ys) = x @ sep @ join sep (y # ys)"

datatype error = TypeError | SyntaxError | EntryNotFound string | VersionNotFound nat string

section \<open>DocumentComparator\<close>

record comparator =
  ignoreFields :: "string list"
  significanceThreshold :: rat
  deepCompare :: bool

definition DocumentComparator :: comparator where
  "DocumentComparator =
     \<lparr>ignoreFields = [''extractionId'', ''timestamp'', ''durationMs''],
      significanceThreshold = 1 / 10,
      deepCompare = True\<rparr>"

datatype change_type =
  added | removed | numeric_change | text_change | array_change | object_change | modified

text \<open>A number the comparator computes: finite, or \<open>NaN\<close> when \<open>NaN\<close> went into it.\<close>

datatype number = Finite rat | NaN

text \<open>
  A difference is the object \<open>{field, type, valueA, valueB, significance, ...details}\<close>;
  the details depend on the type of change.
\<close>

datatype diff =
  Diff (diff_field: string) (diff_type: change_type) (diff_valueA: jsval) (diff_valueB: jsval)
       (diff_significance: number) (diff_details: details)
and details =
    NoDetails
  | NumericDetails (delta: number) (percentChange: "number option")
  | TextDetails (lengthChange: int)
  | ArrayDetails (itemsAdded: nat) (itemsRemoved: nat) (added_items: "jsval list")
      (removed_items: "jsval list")
  | ObjectDetails (nestedChanges: nat) (changes: "diff list")

definition areEqual :: "jsval \<Rightarrow> jsval \<Rightarrow> bool" where
  "areEqual a b =
     (if strict_eq a b then True
      else if typeof a \<noteq> typeof b then False
      else if typeof a = T_object then JSON_stringify a = JSON_stringify b
      else False)"

fun commonPrefixLength :: "string \<Rightarrow> string \<Rightarrow> nat" where
  "commonPrefixLength (x # xs) (y # ys) =
     (if x = y then Suc (commonPrefixLength xs ys) else 0)"
| "commonPrefixLength xs ys = 0"

text \<open>
  \<open>_calculateSignificance\<close>. On two numbers it is
  \<open>Math.min(Math.abs((newVal - oldVal) / (oldVal || 1)), 1)\<close>, which is \<open>NaN\<close> as soon as one
  of them is.
\<close>

fun calculateSignificance :: "jsval \<Rightarrow> jsval \<Rightarrow> number" where
  "calculateSignificance oldVal newVal =
     (if oldVal = JNull \<or> oldVal = JUndef then Finite (1 / 2)
      else if newVal = JNull \<or> newVal = JUndef then Finite (1 / 2)
      else if typeof oldVal = T_number \<and> typeof newVal = T_number
      then (case (oldVal, newVal) of
              (JNum a, JNum b) \<Rightarrow> Finite (min \<bar>(b - a) / (if a \<noteq> 0 then a else 1)\<bar> 1)
            | _ \<Rightarrow> NaN)
      else case (oldVal, newVal) of
        (JStr s, JStr t) \<Rightarrow>
          (let maxLen = max (length s) (length t)
           in if maxLen = 0 then Finite 0
              else Finite (1 - of_nat (commonPrefixLength s t) / of_nat maxLen))
      | _ \<Rightarrow> Finite (1 / 2))"

text \<open>
  The details of a \<open>numeric_change\<close>: \<open>delta = valueB - valueA\<close> and
  \<open>percentChange = valueA !== 0 ? ((valueB - valueA) / valueA) * 100 : null\<close>.
\<close>

definition numericDetails :: "jsval \<Rightarrow> jsval \<Rightarrow> details" where
  "numericDetails valueA valueB =
     (case valueA of
        JNum a \<Rightarrow>
          (case valueB of
             JNum b \<Rightarrow>
               NumericDetails (Finite (b - a))
                 (if a \<noteq> 0 then Some (Finite ((b - a) / a * 100)) else None)
           | _ \<Rightarrow> NumericDetails NaN (if a \<noteq> 0 then Some NaN else None))
      | _ \<Rightarrow> NumericDetails NaN (Some NaN))"

definition compareArrays :: "jsval list \<Rightarrow> jsval list \<Rightarrow> details" where
  "compareArrays arrA arrB =
     (let addedItems = filter (\<lambda>b. \<not> list_ex (\<lambda>a. areEqual a b) arrA) arrB;
          removedItems = filter (\<lambda>a. \<not> list_ex (\<lambda>b. areEqual a b) arrB) arrA
      in ArrayDetails (length addedItems) (length removedItems) addedItems removedItems)"

text \<open>
  \<open>_compareValues\<close> and \<open>_compareObjects\<close> call each other. The recursion is written as
  one function, with the loop of \<open>_compareObjects\<close> in the \<open>object_change\<close> branch;
  \<open>compareObjects\<close> is then that loop by name.
\<close>

definition elements :: "jsval \<Rightarrow> jsval list" where
  "elements v = (case v of JArr xs \<Rightarrow> xs | _ \<Rightarrow> [])"

function compareValues :: "comparator \<Rightarrow> jsval \<Rightarrow> jsval \<Rightarrow> string \<Rightarrow> diff option" where
  "compareValues c valueA valueB field =
     (if valueA = JUndef \<and> valueB \<noteq> JUndef
      then Some (Diff field added JNull valueB (calculateSignificance JNull valueB) NoDetails)
      else if valueA \<noteq> JUndef \<and> valueB = JUndef
      then Some (Diff field removed valueA JNull (calculateSignificance valueA JNull) NoDetails)
      else if areEqual valueA valueB then None
      else if typeof valueA = T_number \<and> typeof valueB = T_number
      then Some (Diff field numeric_change valueA valueB (calculateSignificance valueA valueB)
             (numericDetails valueA valueB))
      else if typeof valueA = T_string \<and> typeof valueB = T_string
      then Some (Diff field text_change valueA valueB (calculateSignificance valueA valueB)
             (case (valueA, valueB) of
                (JStr s, JStr t) \<Rightarrow> TextDetails (int (length t) - int (length s))
              | _ \<Rightarrow> NoDetails))
      else if isArray valueA \<and> isArray valueB
      then Some (Diff field array_change valueA valueB (calculateSignificance valueA valueB)
             (compareArrays (elements valueA) (elements valueB)))
      else if deepCompare c \<and> typeof valueA = T_object \<and> typeof valueB = T_object
      then Some (Diff field object_change valueA valueB (calculateSignificance valueA valueB)
             (let changes =
                List.map_filter
                  (\<lambda>key. compareValues c (member valueA key) (member valueB key) key)
                  (Set_of (Object_keys (or_else valueA (JObj []))
                           @ Object_keys (or_else valueB (JObj []))))
              in ObjectDetails (length changes) changes))
      else Some (Diff field modified valueA valueB (calculateSignificance valueA valueB)
             NoDetails))"
  by pat_completeness auto

lemma size_elem: "v \<in> set xs \<Longrightarrow> size (v::jsval) < Suc (size_list size xs)"
  by (induction xs) auto

lemma size_pair:
  "(k, v) \<in> set kvs \<Longrightarrow> size (v::jsval) < Suc (size_list (size_prod (\<lambda>x. 0) size) kvs)"
  by (induction kvs) auto

lemma size_member_arr: "size (member (JArr xs) k) < size (JArr xs)"
  by (auto simp: enumerate_keys_def split: option.splits
      dest!: map_of_SomeD set_zip_rightD size_elem)

lemma size_member_obj: "size (member (JObj kvs) k) < size (JObj kvs)"
  by (auto split: option.splits dest!: map_of_SomeD size_pair)

lemma size_member_le: "size (member v k) \<le> size v"
  using size_member_arr[of _ k] size_member_obj[of _ k]
  by (cases v) (auto simp del: member.simps(1,2) simp: less_imp_le split: option.splits)

lemma size_member_less:
  "typeof v = T_object \<Longrightarrow> v \<noteq> JNull \<Longrightarrow> size (member v k) < size v"
  using size_member_arr[of _ k] size_member_obj[of _ k]
  by (cases v) (auto simp del: member.simps(1,2))

lemma size_members_less:
  assumes "typeof a = T_object" and "typeof b = T_object" and "\<not> areEqual a b"
  shows "size (member a k) + size (member b k) < size a + size b"
proof (cases "a = JNull")
  case True
  with assms have "b \<noteq> JNull" by (auto simp: areEqual_def)
  with assms size_member_less[of b k] size_member_le[of a k] show ?thesis by linarith
next
  case False
  with assms size_member_less[of a k] size_member_le[of b k] show ?thesis by linarith
qed

termination compareValues
  by (relation "measure (\<lambda>(c, a, b, f). size a + size b)")
     (auto intro: size_members_less)

declare compareValues.simps [simp del]

definition compareObjects :: "comparator \<Rightarrow> jsval \<Rightarrow> jsval \<Rightarrow> details" where
  "compareObjects c objA objB =
     (let changes =
        List.map_filter
          (\<lambda>key. compareValues c (member objA key) (member objB key) key)
          (Set_of (Object_keys (or_else objA (JObj [])) @ Object_keys (or_else objB (JObj []))))
      in ObjectDetails (length changes) changes)"

record statistics =
  totalFields :: nat
  totalDifferences :: nat
  stat_added :: nat
  stat_removed :: nat
  stat_modified :: int
  changePercentage :: rat
  averageSignificance :: rat

text \<open>
  \<open>_calculateStats\<close>; the average adds \<open>d.significance || 0\<close>, so a \<open>NaN\<close> counts as 0.
\<close>

definition calculateStats :: "diff list \<Rightarrow> nat \<Rightarrow> statistics" where
  "calculateStats ds fieldCount =
     (let addedCount = length (filter (\<lambda>d. diff_type d = added) ds);
          removedCount = length (filter (\<lambda>d. diff_type d = removed) ds)
      in \<lparr>totalFields = fieldCount,
          totalDifferences = length ds,
          stat_added = addedCount,
          stat_removed = removedCount,
          stat_modified = int (length ds) - int addedCount - int removedCount,
          changePercentage =
            (if fieldCount > 0 then of_nat (length ds) / of_nat fieldCount else 0),
          averageSignificance =
            (if length ds > 0
             then foldl (\<lambda>sum d. sum + (case diff_significance d of
                                             Finite x \<Rightarrow> x | NaN \<Rightarrow> 0)) 0 ds
                  / of_nat (length ds)
             else 0)\<rparr>)"

text \<open>The decimal text of a count, as a template string prints it.\<close>

definition count_text :: "int \<Rightarrow> string" where
  "count_text n = (if n < 0 then CHR ''-'' # index_key (nat (- n)) else index_key (nat n))"

definition generateSummary :: "diff list \<Rightarrow> statistics \<Rightarrow> string" where
  "generateSummary ds stats =
     (if length ds = 0 then ''Documents are identical''
      else join '', ''
        ((if stat_added stats > 0
          then [count_text (int (stat_added stats)) @ '' field(s) added''] else [])
         @ (if stat_removed stats > 0
            then [count_text (int (stat_removed stats)) @ '' field(s) removed''] else [])
         @ (if stat_modified stats > 0
            then [count_text (stat_modified stats) @ '' field(s) modified''] else [])))"

text \<open>
  The result of \<open>compare\<close>. The identifier and the time stamp come from the
  environment (\<open>uuidv4()\<close>, the clock) and are arguments of the model; a document
  descriptor is the triple of the document's \<open>id\<close>, \<open>version\<close> and \<open>effectiveFrom\<close>.
\<close>

record comparison =
  comparisonId :: string
  timestamp :: string
  documentA :: "jsval \<times> jsval \<times> jsval"
  documentB :: "jsval \<times> jsval \<times> jsval"
  identical :: bool
  differences :: "diff list"
  statistics :: statistics
  summary :: string

definition nullish :: "jsval \<Rightarrow> bool" where
  "nullish v = (v = JNull \<or> v = JUndef)"

definition compare ::
  "comparator \<Rightarrow> string \<Rightarrow> string \<Rightarrow> jsval \<Rightarrow> jsval \<Rightarrow> error + comparison" where
  "compare c uuid now docA docB =
     (if nullish docA \<or> nullish docB then Inl TypeError
      else
        let dataA = or_else (member docA ''data'') docA;
            dataB = or_else (member docB ''data'') docB;
            allFields = Set_of (Object_keys dataA @ Object_keys dataB);
            ds = List.map_filter
              (\<lambda>field. if field \<in> set (ignoreFields c) then None
                 else compareValues c (member dataA field) (member dataB field) field)
              allFields;
            stats = calculateStats ds (length allFields)
        in Inr \<lparr>comparisonId = uuid,
                timestamp = now,
                documentA = (member docA ''id'', member docA ''version'',
                             member docA ''effectiveFrom''),
                documentB = (member docB ''id'', member docB ''version'',
                             member docB ''effectiveFrom''),
                identical = (length ds = 0),
                differences = ds,
                statistics = stats,
                summary = generateSummary ds stats\<rparr>)"

subsection \<open>Conflicts between documents\<close>

text \<open>
  What the source takes from the JavaScript runtime is an argument of the model:
  \<open>Date_value v\<close> is the time value of \<open>new Date(v)\<close> in milliseconds (\<open>None\<close> for an
  invalid date), \<open>less a b\<close> is the operator \<open>a < b\<close>, \<open>String_of v\<close> is \<open>String(v)\<close>,
  and \<open>RegExp_test p f s\<close> is \<open>new RegExp(p, f).test(s)\<close> (\<open>None\<close> when the constructor
  throws).
\<close>

record runtime =
  Date_value :: "jsval \<Rightarrow> int option"
  less :: "jsval \<Rightarrow> jsval \<Rightarrow> bool"
  String_of :: "jsval \<Rightarrow> string"
  RegExp_test :: "jsval \<Rightarrow> jsval \<Rightarrow> string \<Rightarrow> bool option"

text \<open>\<open>a <= b\<close> and \<open>a > b\<close> on two dates: false when either is invalid.\<close>

definition date_le :: "int option \<Rightarrow> int option \<Rightarrow> bool" where
  "date_le a b = (case (a, b) of (Some x, Some y) \<Rightarrow> x \<le> y | _ \<Rightarrow> False)"

definition date_gt :: "int option \<Rightarrow> int option \<Rightarrow> bool" where
  "date_gt a b = (case (a, b) of (Some x, Some y) \<Rightarrow> x > y | _ \<Rightarrow> False)"

text \<open>
  An overlap names the two documents and the common period; the two ends are kept as
  time values where the source prints them with \<open>toISOString\<close>.
\<close>

record overlap =
  overlap_documents :: "jsval \<times> jsval"
  overlapStart :: int
  overlapEnd :: int

text \<open>The pairs \<open>(values[i], values[j])\<close> with \<open>i < j\<close>, in the order of the two loops.\<close>

fun index_pairs :: "'a list \<Rightarrow> ('a \<times> 'a) list" where
  "index_pairs [] = []"
| "index_pairs (x # xs) = map (Pair x) xs @ index_pairs xs"

definition overlapOf :: "runtime \<Rightarrow> jsval \<Rightarrow> jsval \<Rightarrow> overlap option" where
  "overlapOf rt a b =
     (if \<not> truthy (member a ''effectiveFrom'') \<or> \<not> truthy (member b ''effectiveFrom'')
      then None
      else
        let aFrom = Date_value rt (member a ''effectiveFrom'');
            aTo = (if truthy (member a ''effectiveTo'')
                   then Date_value rt (member a ''effectiveTo'')
                   else Date_value rt (JStr ''9999-12-31''));
            bFrom = Date_value rt (member b ''effectiveFrom'');
            bTo = (if truthy (member b ''effectiveTo'')
                   then Date_value rt (member b ''effectiveTo'')
                   else Date_value rt (JStr ''9999-12-31''))
        in if date_le aFrom bTo \<and> date_le bFrom aTo
           then (case (aFrom, bFrom, aTo, bTo) of
                   (Some a_from, Some b_from, Some a_to, Some b_to) \<Rightarrow>
                     Some \<lparr>overlap_documents = (member a ''documentId'', member b ''documentId''),
                           overlapStart = max a_from b_from,
                           overlapEnd = min a_to b_to\<rparr>
                 | _ \<Rightarrow> None)
           else None)"

definition findOverlappingPeriods :: "runtime \<Rightarrow> jsval list \<Rightarrow> overlap list" where
  "findOverlappingPeriods rt vals =
     List.map_filter (\<lambda>(a, b). overlapOf rt a b) (index_pairs vals)"

definition calculateConflictSeverity :: "string \<Rightarrow> jsval list \<Rightarrow> rat" where
  "calculateConflictSeverity fld vals =
     (let docCount = length (Set_of (map (\<lambda>v. member v ''documentId'') vals))
      in min (of_nat docCount / 10) 1)"

definition generateConflictRecommendation :: "string \<Rightarrow> jsval list \<Rightarrow> string" where
  "generateConflictRecommendation fld vals =
     (let uniqueValues = Set_of (map (\<lambda>v. JSON_stringify (member v ''value'')) vals)
      in if length uniqueValues = 2
         then ''Review and reconcile the two different values for ''
              @ [CHR 0x22] @ fld @ [CHR 0x22]
         else ''Multiple conflicting values found for '' @ [CHR 0x22] @ fld @ [CHR 0x22]
              @ ''. Manual review required to determine authoritative value.'')"

record conflict =
  conflict_field :: string
  conflict_type :: string
  severity :: rat
  conflict_documents :: "jsval list"
  overlappingPeriods :: "overlap list"
  recommendation :: string

definition generateConflictSummary :: "conflict list \<Rightarrow> string" where
  "generateConflictSummary cs =
     (if length cs = 0 then ''No conflicts detected''
      else ''Found '' @ count_text (int (length cs)) @ '' conflict(s): ''
           @ count_text (int (length (filter (\<lambda>c. severity c > 7 / 10) cs)))
           @ '' high severity'')"

text \<open>
  \<open>Array.prototype.sort\<close> is stable and is modelled by insertion sort; \<open>cmp a b\<close> is the
  number the comparator returns. For a comparator that is not consistent the order an engine
  produces is implementation-defined, and the order of insertion sort stands for it.
\<close>

fun insert_by :: "('a \<Rightarrow> 'a \<Rightarrow> rat) \<Rightarrow> 'a \<Rightarrow> 'a list \<Rightarrow> 'a list" where
  "insert_by cmp x [] = [x]"
| "insert_by cmp x (y # ys) = (if cmp x y < 0 then x # y # ys else y # insert_by cmp x ys)"

definition Array_sort :: "('a \<Rightarrow> 'a \<Rightarrow> rat) \<Rightarrow> 'a list \<Rightarrow> 'a list" where
  "Array_sort cmp xs = foldl (\<lambda>acc x. insert_by cmp x acc) [] xs"

text \<open>
  \<open>fieldValues\<close> is a \<open>Map\<close> from a field name to the array of the records pushed for
  it: keys in the order of their first insertion.
\<close>

definition push_value :: "(string \<times> jsval list) list \<Rightarrow> string \<Rightarrow> jsval \<Rightarrow> (string \<times> jsval list) list" where
  "push_value fieldValues fld v =
     (if fld \<in> fst ` set fieldValues
      then map (\<lambda>(k, vs). if k = fld then (k, vs @ [v]) else (k, vs)) fieldValues
      else fieldValues @ [(fld, [v])])"

record conflict_options =
  conflictFields :: "string list option"

definition collect_document ::
  "string list option \<Rightarrow> (string \<times> jsval list) list \<Rightarrow> jsval \<Rightarrow> (string \<times> jsval list) list" where
  "collect_document fieldsToCheck fieldValues doc =
     foldl (\<lambda>fv (fld, v).
              if (case fieldsToCheck of Some fs \<Rightarrow> fld \<notin> set fs | None \<Rightarrow> False) then fv
              else push_value fv fld
                     (JObj [(''documentId'', member doc ''id''),
                            (''version'', member doc ''version''),
                            (''value'', v),
                            (''effectiveFrom'', member doc ''effectiveFrom'')]))
       fieldValues
       (Object_entries (or_else (member doc ''data'') doc))"

record conflict_report =
  hasConflicts :: bool
  conflictCount :: nat
  conflicts :: "conflict list"
  conflict_summary :: string

text \<open>
  \<open>findConflicts\<close>. Reading \<open>doc.data\<close> of a null or undefined document throws, before
  anything is returned.
\<close>

definition findConflicts ::
  "runtime \<Rightarrow> jsval list \<Rightarrow> conflict_options \<Rightarrow> error + conflict_report" where
  "findConflicts rt documents options =
     (if list_ex nullish documents then Inl TypeError
      else
        let fieldValues = foldl (collect_document (conflictFields options)) [] documents;
            found = List.map_filter
              (\<lambda>(fld, vals).
                 let uniqueValues = Set_of (map (\<lambda>v. JSON_stringify (member v ''value'')) vals)
                 in if length uniqueValues > 1
                    then (let overlapping = findOverlappingPeriods rt vals
                          in if length overlapping > 0
                             then Some \<lparr>conflict_field = fld,
                                        conflict_type = ''value_conflict'',
                                        severity = calculateConflictSeverity fld vals,
                                        conflict_documents = vals,
                                        overlappingPeriods = overlapping,
                                        recommendation = generateConflictRecommendation fld vals\<rparr>
                             else None)
                    else None)
              fieldValues
        in Inr \<lparr>hasConflicts = (length found > 0),
                conflictCount = length found,
                conflicts = Array_sort (\<lambda>a b. severity b - severity a) found,
                conflict_summary = generateConflictSummary found\<rparr>)"

section \<open>DocumentRegister\<close>

text \<open>
  The register is modelled as it is constructed by default: \<open>storage\<close> is the register's
  own \<open>Map\<close>, so an entry read from it is the stored object itself. A \<open>Map\<close> is the
  list of its pairs in insertion order. Identifiers, status names and the clock's ISO
  strings are strings, versions are natural numbers; what a caller passes through
  unchanged (\<open>data\<close>, \<open>metadata\<close>, the effective dates) is a JavaScript value.
\<close>

definition Map_set :: "('k \<times> 'v) list \<Rightarrow> 'k \<Rightarrow> 'v \<Rightarrow> ('k \<times> 'v) list" where
  "Map_set m k v =
     (if k \<in> fst ` set m then map (\<lambda>(k', v'). if k' = k then (k', v) else (k', v')) m
      else m @ [(k, v)])"

definition Set_add :: "'a list \<Rightarrow> 'a \<Rightarrow> 'a list" where
  "Set_add xs x = (if x \<in> set xs then xs else xs @ [x])"

text \<open>
  An object literal with a spread, \<open>{...base, ...src}\<close>: a key of \<open>src\<close> that \<open>base\<close> has
  keeps its place and takes the new value, a new key goes to the end. (Keys that are
  array indices, which an engine enumerates first, are assumed not to occur.)
\<close>

definition spread :: "(string \<times> jsval) list \<Rightarrow> (string \<times> jsval) list \<Rightarrow> (string \<times> jsval) list" where
  "spread base src = foldl (\<lambda>obj (k, v). Map_set obj k v) base src"

text \<open>\<open>s || d\<close> for an optional string \<open>s\<close>: absent and empty are both falsy.\<close>

definition or_default :: "string option \<Rightarrow> string \<Rightarrow> string" where
  "or_default s d = (case s of Some x \<Rightarrow> (if x = [] then d else x) | None \<Rightarrow> d)"

record history_record =
  h_version :: nat
  h_data :: jsval
  h_metadata :: "(string \<times> jsval) list"
  h_effectiveFrom :: jsval
  h_effectiveTo :: jsval
  h_archivedAt :: string

text \<open>
  An entry. \<open>archival\<close> holds the two properties \<open>archivedAt\<close> and \<open>archiveReason\<close>,
  which an entry has only once \<open>archive\<close> has set them.
\<close>

record entry =
  entry_id :: string
  version :: nat
  createdAt :: string
  updatedAt :: string
  effectiveFrom :: jsval
  effectiveTo :: jsval
  status :: string
  data :: jsval
  metadata :: "(string \<times> jsval) list"
  citations :: jsval
  history :: "history_record list"
  archival :: "(string \<times> jsval) option"

definition history_object :: "history_record \<Rightarrow> jsval" where
  "history_object h =
     JObj [(''version'', JNum (of_nat (h_version h))),
           (''data'', h_data h),
           (''metadata'', JObj (h_metadata h)),
           (''effectiveFrom'', h_effectiveFrom h),
           (''effectiveTo'', h_effectiveTo h),
           (''archivedAt'', JStr (h_archivedAt h))]"

text \<open>The entry as the plain object it is, for the places that read it by property name.\<close>

definition entry_object :: "entry \<Rightarrow> jsval" where
  "entry_object e =
     JObj ([(''id'', JStr (entry_id e)),
            (''version'', JNum (of_nat (version e))),
            (''createdAt'', JStr (createdAt e)),
            (''updatedAt'', JStr (updatedAt e)),
            (''effectiveFrom'', effectiveFrom e),
            (''effectiveTo'', effectiveTo e),
            (''status'', JStr (status e)),
            (''data'', data e),
            (''metadata'', JObj (metadata e)),
            (''citations'', citations e),
            (''history'', JArr (map history_object (history e)))]
           @ (case archival e of
                None \<Rightarrow> []
              | Some (t, reason) \<Rightarrow> [(''archivedAt'', JStr t), (''archiveReason'', reason)]))"

datatype action = ADD | UPDATE | ARCHIVE

record audit_entry =
  audit_timestamp :: string
  audit_action :: action
  documentId :: string
  audit_details :: "(string \<times> jsval) list"

text \<open>
  \<open>indexes\<close> maps \<open>'category'\<close> and \<open>'tags'\<close> to a \<open>Map\<close> from an index value to the
  \<open>Set\<close> of entry ids; index values are compared as primitives.
\<close>

type_synonym index = "(jsval \<times> string list) list"

record register =
  storage :: "(string \<times> entry) list"
  name :: string
  schemaId :: jsval
  enableVersioning :: bool
  enableAuditLog :: bool
  retentionPolicy :: jsval
  auditLog :: "audit_entry list"
  indexes :: "(string \<times> index) list"

record register_options =
  ro_name :: "string option"
  ro_schemaId :: jsval
  ro_enableVersioning :: "bool option"
  ro_enableAuditLog :: "bool option"
  ro_retentionPolicy :: jsval

definition no_register_options :: register_options where
  "no_register_options =
     \<lparr>ro_name = None, ro_schemaId = JUndef, ro_enableVersioning = None,
      ro_enableAuditLog = None, ro_retentionPolicy = JUndef\<rparr>"

definition DocumentRegister :: "register_options \<Rightarrow> register" where
  "DocumentRegister options =
     \<lparr>storage = [],
      name = or_default (ro_name options) ''default'',
      schemaId = or_else (ro_schemaId options) JNull,
      enableVersioning = (case ro_enableVersioning options of Some b \<Rightarrow> b | None \<Rightarrow> True),
      enableAuditLog = (case ro_enableAuditLog options of Some b \<Rightarrow> b | None \<Rightarrow> True),
      retentionPolicy = or_else (ro_retentionPolicy options) JNull,
      auditLog = [],
      indexes = []\<rparr>"

text \<open>
  What an operation reads from its environment: the identifier \<open>uuidv4()\<close> returns,
  the clock at the start of the operation, and the clock when the audit entry is written.
\<close>

record env =
  uuid :: string
  now :: string
  log_now :: string

definition logAudit ::
  "register \<Rightarrow> string \<Rightarrow> action \<Rightarrow> string \<Rightarrow> (string \<times> jsval) list \<Rightarrow> register" where
  "logAudit reg t act docId dets =
     reg\<lparr>auditLog := auditLog reg
            @ [\<lparr>audit_timestamp = t, audit_action = act, documentId = docId,
                audit_details = dets\<rparr>]\<rparr>"

definition index_add ::
  "(string \<times> index) list \<Rightarrow> string \<Rightarrow> jsval \<Rightarrow> string \<Rightarrow> (string \<times> index) list" where
  "index_add ix which key ident =
     (let idx = (case map_of ix which of Some m \<Rightarrow> m | None \<Rightarrow> []);
          ids = (case map_of idx key of Some xs \<Rightarrow> xs | None \<Rightarrow> [])
      in Map_set ix which (Map_set idx key (Set_add ids ident)))"

text \<open>
  The values a \<open>for ... of\<close> loop runs over: the elements of an array, the characters of
  a string; nothing else among these values is iterable, and the loop throws.
\<close>

fun iterate :: "jsval \<Rightarrow> jsval list option" where
  "iterate (JArr xs) = Some xs"
| "iterate (JStr s) = Some (map (\<lambda>c. JStr [c]) s)"
| "iterate v = None"

text \<open>
  \<open>_updateIndexes\<close> returns the indexes as it leaves them and whether it returned
  normally: the loop over \<open>entry.metadata.tags\<close> throws a \<open>TypeError\<close> when the tags
  have a truthy \<open>length\<close> and are not iterable, after the category has been indexed.
\<close>

definition updateIndexes :: "(string \<times> index) list \<Rightarrow> entry \<Rightarrow> bool \<times> (string \<times> index) list" where
  "updateIndexes ix e =
     (let category = member (JObj (metadata e)) ''category'';
          ix1 = (if truthy category then index_add ix ''category'' category (entry_id e) else ix);
          tags = member (JObj (metadata e)) ''tags''
      in if truthy (member tags ''length'')
         then (let ix2 = (if ''tags'' \<in> fst ` set ix1 then ix1 else ix1 @ [(''tags'', [])])
               in case iterate tags of
                    None \<Rightarrow> (False, ix2)
                  | Some ts \<Rightarrow> (True, foldl (\<lambda>i t. index_add i ''tags'' t (entry_id e)) ix2 ts))
         else (True, ix1))"

record add_options =
  opt_id :: "string option"
  opt_effectiveFrom :: jsval
  opt_effectiveTo :: jsval
  opt_status :: "string option"
  opt_source :: jsval
  opt_tags :: jsval
  opt_category :: jsval
  opt_metadata :: jsval
  opt_userId :: jsval

definition no_add_options :: add_options where
  "no_add_options =
     \<lparr>opt_id = None, opt_effectiveFrom = JUndef, opt_effectiveTo = JUndef, opt_status = None,
      opt_source = JUndef, opt_tags = JUndef, opt_category = JUndef, opt_metadata = JUndef,
      opt_userId = JUndef\<rparr>"

record add_result =
  added_id :: string
  added_version :: nat
  added_createdAt :: string
  added_status :: string

text \<open>
  \<open>add\<close>. Every operation returns its outcome and the register as it leaves it; a throw
  is an \<open>Inl\<close> outcome. Reading \<open>document.data\<close> of a null or undefined document throws
  before anything is stored; a throw of \<open>_updateIndexes\<close> comes after the entry is stored.
\<close>

definition add :: "env \<Rightarrow> register \<Rightarrow> jsval \<Rightarrow> add_options \<Rightarrow> (error + add_result) \<times> register" where
  "add ev reg document options =
     (if nullish document then (Inl TypeError, reg)
      else
        let entryId = or_default (opt_id options) (uuid ev);
            e = \<lparr>entry_id = entryId,
                 version = 1,
                 createdAt = now ev,
                 updatedAt = now ev,
                 effectiveFrom = or_else (opt_effectiveFrom options) (JStr (now ev)),
                 effectiveTo = or_else (opt_effectiveTo options) JNull,
                 status = or_default (opt_status options) ''active'',
                 data = or_else (member document ''data'') document,
                 metadata =
                   spread
                     [(''schemaId'', or_else (member document ''schemaId'') (schemaId reg)),
                      (''schemaVersion'', member document ''schemaVersion''),
                      (''extractionId'', member document ''extractionId''),
                      (''confidence'', member document ''confidence''),
                      (''source'', or_else (opt_source options) JNull),
                      (''tags'', or_else (opt_tags options) (JArr [])),
                      (''category'', or_else (opt_category options) JNull)]
                     (Object_entries (opt_metadata options)),
                 citations = or_else (member document ''citations'') (JArr []),
                 history = [],
                 archival = None\<rparr>;
            reg1 = reg\<lparr>storage := Map_set (storage reg) entryId e\<rparr>;
            (ok, ix) = updateIndexes (indexes reg1) e;
            reg2 = reg1\<lparr>indexes := ix\<rparr>
        in if \<not> ok then (Inl TypeError, reg2)
           else
             let reg3 = (if enableAuditLog reg2
                         then logAudit reg2 (log_now ev) ADD entryId
                                [(''version'', JNum 1),
                                 (''effectiveFrom'', effectiveFrom e),
                                 (''userId'', opt_userId options)]
                         else reg2)
             in (Inr \<lparr>added_id = entryId, added_version = 1, added_createdAt = now ev,
                       added_status = ''created''\<rparr>, reg3))"

record get_options =
  g_version :: "nat option"
  g_asOf :: jsval

definition no_get_options :: get_options where
  "no_get_options = \<lparr>g_version = None, g_asOf = JUndef\<rparr>"

text \<open>The re-shaped historic version \<open>get\<close> returns; its \<open>isHistoric\<close> flag is the constructor.\<close>

record historic_view =
  hv_id :: string
  hv_version :: nat
  hv_data :: jsval
  hv_metadata :: "(string \<times> jsval) list"
  hv_effectiveFrom :: jsval
  hv_effectiveTo :: jsval

datatype lookup = Null | Current entry | Historic historic_view

definition historic :: "entry \<Rightarrow> history_record \<Rightarrow> lookup" where
  "historic e h =
     Historic \<lparr>hv_id = entry_id e, hv_version = h_version h, hv_data = h_data h,
               hv_metadata = h_metadata h, hv_effectiveFrom = h_effectiveFrom h,
               hv_effectiveTo = h_effectiveTo h\<rparr>"

text \<open>
  The test \<open>from <= date && (!to || to > date)\<close> on \<open>from = new Date(effectiveFrom)\<close> and
  \<open>to = effectiveTo ? new Date(effectiveTo) : null\<close>, which \<open>get\<close> applies to the current
  version and to each history record, and \<open>list\<close> to each entry.
\<close>

definition in_effect :: "runtime \<Rightarrow> jsval \<Rightarrow> jsval \<Rightarrow> int option \<Rightarrow> bool" where
  "in_effect rt from to date =
     (date_le (Date_value rt from) date \<and> (\<not> truthy to \<or> date_gt (Date_value rt to) date))"

text \<open>
  \<open>get\<close>. In the \<open>asOf\<close> branch \<open>entry.history.reverse()\<close> reverses the array of the stored
  entry in place before the loop runs over it, so the register comes back with that
  entry's history reversed.
\<close>

definition get ::
  "runtime \<Rightarrow> register \<Rightarrow> string \<Rightarrow> get_options \<Rightarrow> (error + lookup) \<times> register" where
  "get rt reg ident options =
     (case map_of (storage reg) ident of
        None \<Rightarrow> (Inr Null, reg)
      | Some e \<Rightarrow>
          (case (case g_version options of
                   Some v \<Rightarrow> if v \<noteq> 0 \<and> v \<noteq> version e then Some v else None
                 | None \<Rightarrow> None) of
             Some v \<Rightarrow>
               (case find (\<lambda>h. h_version h = v) (history e) of
                  Some h \<Rightarrow> (Inr (historic e h), reg)
                | None \<Rightarrow> (Inl (VersionNotFound v ident), reg))
           | None \<Rightarrow>
               if truthy (g_asOf options)
               then
                 (let asOfDate = Date_value rt (g_asOf options)
                  in if in_effect rt (effectiveFrom e) (effectiveTo e) asOfDate
                     then (Inr (Current e), reg)
                     else
                       let reversed = rev (history e);
                           reg' = reg\<lparr>storage :=
                                    Map_set (storage reg) ident (e\<lparr>history := reversed\<rparr>)\<rparr>
                       in (case find (\<lambda>h. in_effect rt (h_effectiveFrom h) (h_effectiveTo h)
                                          asOfDate) reversed of
                             Some h \<Rightarrow> (Inr (historic e h), reg')
                           | None \<Rightarrow> (Inr Null, reg')))
               else (Inr (Current e), reg)))"

record update_options =
  u_effectiveFrom :: jsval
  u_effectiveTo :: jsval
  u_metadata :: jsval
  u_userId :: jsval
  u_changeReason :: jsval

definition no_update_options :: update_options where
  "no_update_options =
     \<lparr>u_effectiveFrom = JUndef, u_effectiveTo = JUndef, u_metadata = JUndef,
      u_userId = JUndef, u_changeReason = JUndef\<rparr>"

record update_result =
  updated_id :: string
  updated_version :: nat
  previousVersion :: nat
  updated_updatedAt :: string
  updated_status :: string

text \<open>
  \<open>update\<close> and \<open>archive\<close> start with \<open>this.get(id)\<close>, which without options returns the
  stored entry or null; the branch for a historic view is never reached from them.
\<close>

definition update ::
  "env \<Rightarrow> runtime \<Rightarrow> register \<Rightarrow> string \<Rightarrow> jsval \<Rightarrow> update_options
   \<Rightarrow> (error + update_result) \<times> register" where
  "update ev rt reg ident document options =
     (case get rt reg ident no_get_options of
        (Inl err, reg0) \<Rightarrow> (Inl err, reg0)
      | (Inr Null, reg0) \<Rightarrow> (Inl (EntryNotFound ident), reg0)
      | (Inr (Historic hv), reg0) \<Rightarrow> (Inl TypeError, reg0)
      | (Inr (Current existing), reg0) \<Rightarrow>
          if nullish document then (Inl TypeError, reg0)
          else
            let newVersion = version existing + 1;
                historyEntry =
                  \<lparr>h_version = version existing,
                   h_data = data existing,
                   h_metadata = metadata existing,
                   h_effectiveFrom = effectiveFrom existing,
                   h_effectiveTo = JStr (now ev),
                   h_archivedAt = now ev\<rparr>;
                updated = existing
                  \<lparr>version := newVersion,
                   updatedAt := now ev,
                   effectiveFrom := or_else (u_effectiveFrom options) (JStr (now ev)),
                   effectiveTo := or_else (u_effectiveTo options) JNull,
                   data := or_else (member document ''data'') document,
                   metadata :=
                     spread
                       (spread (metadata existing)
                          [(''schemaId'', or_else (member document ''schemaId'')
                                            (member (JObj (metadata existing)) ''schemaId'')),
                           (''schemaVersion'', or_else (member document ''schemaVersion'')
                                            (member (JObj (metadata existing)) ''schemaVersion'')),
                           (''extractionId'', member document ''extractionId''),
                           (''confidence'', member document ''confidence'')])
                       (Object_entries (u_metadata options)),
                   citations := or_else (member document ''citations'') (citations existing),
                   history := (if enableVersioning reg0 then history existing @ [historyEntry]
                               else [])\<rparr>;
                reg1 = reg0\<lparr>storage := Map_set (storage reg0) ident updated\<rparr>;
                (ok, ix) = updateIndexes (indexes reg1) updated;
                reg2 = reg1\<lparr>indexes := ix\<rparr>
            in if \<not> ok then (Inl TypeError, reg2)
               else
                 let reg3 = (if enableAuditLog reg2
                             then logAudit reg2 (log_now ev) UPDATE ident
                                    [(''previousVersion'', JNum (of_nat (version existing))),
                                     (''newVersion'', JNum (of_nat newVersion)),
                                     (''effectiveFrom'', effectiveFrom updated),
                                     (''userId'', u_userId options),
                                     (''changeReason'', u_changeReason options)]
                             else reg2)
                 in (Inr \<lparr>updated_id = ident, updated_version = newVersion,
                           previousVersion = version existing, updated_updatedAt = now ev,
                           updated_status = ''updated''\<rparr>, reg3))"

record archive_options =
  ar_reason :: jsval
  ar_userId :: jsval

record archive_result =
  archived_id :: string
  archived_status :: string
  archived_at :: string

definition archive ::
  "env \<Rightarrow> runtime \<Rightarrow> register \<Rightarrow> string \<Rightarrow> archive_options
   \<Rightarrow> (error + archive_result) \<times> register" where
  "archive ev rt reg ident options =
     (case get rt reg ident no_get_options of
        (Inl err, reg0) \<Rightarrow> (Inl err, reg0)
      | (Inr Null, reg0) \<Rightarrow> (Inl (EntryNotFound ident), reg0)
      | (Inr (Historic hv), reg0) \<Rightarrow> (Inl TypeError, reg0)
      | (Inr (Current e), reg0) \<Rightarrow>
          let e' = e\<lparr>status := ''archived'', archival := Some (now ev, ar_reason options)\<rparr>;
              reg1 = reg0\<lparr>storage := Map_set (storage reg0) ident e'\<rparr>;
              reg2 = (if enableAuditLog reg1
                      then logAudit reg1 (log_now ev) ARCHIVE ident
                             [(''reason'', ar_reason options), (''userId'', ar_userId options)]
                      else reg1)
          in (Inr \<lparr>archived_id = ident, archived_status = ''archived'',
                    archived_at = now ev\<rparr>, reg2))"

subsection \<open>Listing\<close>

text \<open>\<open>hay.includes(needle)\<close> on strings.\<close>

fun starts_with :: "string \<Rightarrow> string \<Rightarrow> bool" where
  "starts_with hay [] = True"
| "starts_with [] (n # ns) = False"
| "starts_with (h # hs) (n # ns) = (h = n \<and> starts_with hs ns)"

fun String_includes :: "string \<Rightarrow> string \<Rightarrow> bool" where
  "String_includes [] needle = (needle = [])"
| "String_includes (h # hs) needle = (starts_with (h # hs) needle \<or> String_includes hs needle)"

text \<open>
  \<open>tags?.includes(tag)\<close> on the \<open>tags\<close> of an entry's metadata: undefined on null and
  undefined, membership in an array, a substring test on a string; any other value has
  no \<open>includes\<close> to call, and the call throws (\<open>None\<close>).
\<close>

fun tags_includes :: "runtime \<Rightarrow> jsval \<Rightarrow> jsval \<Rightarrow> bool option" where
  "tags_includes rt JUndef tag = Some False"
| "tags_includes rt JNull tag = Some False"
| "tags_includes rt (JArr xs) tag = Some (list_ex (\<lambda>x. sameValueZero x tag) xs)"
| "tags_includes rt (JStr s) tag = Some (String_includes s (String_of rt tag))"
| "tags_includes rt v tag = None"

text \<open>\<open>xs.some(p)\<close> and \<open>xs.filter(p)\<close> for a callback that may throw.\<close>

fun some_of :: "('a \<Rightarrow> bool option) \<Rightarrow> 'a list \<Rightarrow> bool option" where
  "some_of p [] = Some False"
| "some_of p (x # xs) =
     (case p x of None \<Rightarrow> None | Some True \<Rightarrow> Some True | Some False \<Rightarrow> some_of p xs)"

fun filter_of :: "('a \<Rightarrow> bool option) \<Rightarrow> 'a list \<Rightarrow> 'a list option" where
  "filter_of p [] = Some []"
| "filter_of p (x # xs) =
     (case p x of
        None \<Rightarrow> None
      | Some b \<Rightarrow> (case filter_of p xs of
                     None \<Rightarrow> None
                   | Some ys \<Rightarrow> Some (if b then x # ys else ys)))"

text \<open>
  The options of \<open>list\<close>. \<open>l_tags\<close> is the array \<open>options.tags\<close> (empty when absent),
  \<open>l_limit\<close> is \<open>options.limit\<close> (\<open>0\<close> when absent, \<open>\<infinity>\<close> for \<open>Infinity\<close>).
\<close>

record list_options =
  l_status :: "string option"
  l_category :: jsval
  l_tags :: "jsval list"
  l_effectiveAt :: jsval
  l_schemaId :: jsval
  l_sortBy :: "string option"
  l_sortDir :: "string option"
  l_offset :: nat
  l_limit :: enat
  l_includeData :: bool

definition no_list_options :: "list_options" where
  "no_list_options =
     \<lparr>l_status = None, l_category = JUndef, l_tags = [], l_effectiveAt = JUndef,
      l_schemaId = JUndef, l_sortBy = None, l_sortDir = None, l_offset = 0, l_limit = 0,
      l_includeData = False\<rparr>"

record entry_summary =
  s_id :: string
  s_version :: nat
  s_status :: string
  s_createdAt :: string
  s_updatedAt :: string
  s_effectiveFrom :: jsval
  s_effectiveTo :: jsval
  s_metadata :: "(string \<times> jsval) list"

datatype listed = Full entry | Summary entry_summary

record list_result =
  listed_entries :: "listed list"
  list_total :: nat
  list_offset :: nat
  list_limit :: enat
  hasMore :: bool

definition slice :: "nat \<Rightarrow> enat \<Rightarrow> 'a list \<Rightarrow> 'a list" where
  "slice start count xs =
     (case count of enat n \<Rightarrow> take n (drop start xs) | \<infinity> \<Rightarrow> drop start xs)"

definition list_entries :: "runtime \<Rightarrow> register \<Rightarrow> 'a list_options_scheme \<Rightarrow> error + list_result" where
  "list_entries rt reg options =
     (let entries0 = map snd (storage reg);
          entries1 = (if or_default (l_status options) [] \<noteq> []
                      then filter (\<lambda>e. Some (status e) = l_status options) entries0
                      else entries0);
          entries2 = (if truthy (l_category options)
                      then filter (\<lambda>e. strict_eq (member (JObj (metadata e)) ''category'')
                                          (l_category options)) entries1
                      else entries1)
      in case (if length (l_tags options) > 0
               then filter_of (\<lambda>e. some_of (tags_includes rt (member (JObj (metadata e)) ''tags''))
                                      (l_tags options)) entries2
               else Some entries2) of
           None \<Rightarrow> Inl TypeError
         | Some entries3 \<Rightarrow>
             let entries4 = (if truthy (l_effectiveAt options)
                             then filter (\<lambda>e. in_effect rt (effectiveFrom e) (effectiveTo e)
                                                 (Date_value rt (l_effectiveAt options))) entries3
                             else entries3);
                 entries5 = (if truthy (l_schemaId options)
                             then filter (\<lambda>e. strict_eq (member (JObj (metadata e)) ''schemaId'')
                                                 (l_schemaId options)) entries4
                             else entries4);
                 sortField = or_default (l_sortBy options) ''updatedAt'';
                 sortDir = or_default (l_sortDir options) ''desc'';
                 key = (\<lambda>e. or_else (member (entry_object e) sortField)
                                 (member (JObj (metadata e)) sortField));
                 sorted_entries =
                   Array_sort (\<lambda>a b. if sortDir = ''asc''
                                      then (if less rt (key b) (key a) then 1 else - 1)
                                      else (if less rt (key a) (key b) then 1 else - 1))
                     entries5;
                 offset = l_offset options;
                 limit = (if l_limit options = 0 then 100 else l_limit options);
                 page = slice offset limit sorted_entries
             in Inr \<lparr>listed_entries =
                       map (\<lambda>e. if l_includeData options then Full e
                                 else Summary \<lparr>s_id = entry_id e, s_version = version e,
                                        s_status = status e, s_createdAt = createdAt e,
                                        s_updatedAt = updatedAt e,
                                        s_effectiveFrom = effectiveFrom e,
                                        s_effectiveTo = effectiveTo e,
                                        s_metadata = metadata e\<rparr>) page,
                     list_total = length sorted_entries,
                     list_offset = offset,
                     list_limit = limit,
                     hasMore = (enat offset + limit < enat (length sorted_entries))\<rparr>)"

subsection \<open>Searching\<close>

fun split_on :: "char \<Rightarrow> string \<Rightarrow> string list" where
  "split_on sep [] = [[]]"
| "split_on sep (c # cs) =
     (if c = sep then [] # split_on sep cs
      else (case split_on sep cs of
              [] \<Rightarrow> [[c]]
            | w # ws \<Rightarrow> (c # w) # ws))"

definition getNestedValue :: "jsval \<Rightarrow> string \<Rightarrow> jsval" where
  "getNestedValue obj path = foldl member obj (split_on (CHR ''.'') path)"

record match =
  matched :: bool
  score :: rat
  match_fields :: "string list"

definition hit :: "match \<Rightarrow> rat \<Rightarrow> string \<Rightarrow> match" where
  "hit m w fld = \<lparr>matched = True, score = score m + w, match_fields = match_fields m @ [fld]\<rparr>"

text \<open>
  One turn of the loop of \<open>_matchesQuery\<close>, for the query's pair \<open>(field, value)\<close>;
  \<open>new RegExp\<close> may throw a \<open>SyntaxError\<close>.
\<close>

definition match_field :: "runtime \<Rightarrow> jsval \<Rightarrow> match \<Rightarrow> string \<times> jsval \<Rightarrow> error + match" where
  "match_field rt dat m q =
     (let fld = fst q; v = snd q; fieldValue = getNestedValue dat fld
      in if fieldValue = JUndef then Inr m
         else if typeof v = T_object \<and> v \<noteq> JNull
         then
           (let m1 = (if member v ''$eq'' \<noteq> JUndef \<and> strict_eq fieldValue (member v ''$eq'')
                      then hit m 1 fld else m);
                m2 = (if member v ''$contains'' \<noteq> JUndef
                         \<and> String_includes (String_of rt fieldValue) (String_of rt (member v ''$contains''))
                      then hit m1 (8 / 10) fld else m1);
                m3 = (if member v ''$gt'' \<noteq> JUndef \<and> less rt (member v ''$gt'') fieldValue
                      then hit m2 (7 / 10) fld else m2);
                m4 = (if member v ''$lt'' \<noteq> JUndef \<and> less rt fieldValue (member v ''$lt'')
                      then hit m3 (7 / 10) fld else m3)
            in if member v ''$regex'' \<noteq> JUndef
               then (case RegExp_test rt (member v ''$regex'')
                            (or_else (member v ''$flags'') (JStr ''i''))
                            (String_of rt fieldValue) of
                       None \<Rightarrow> Inl SyntaxError
                     | Some True \<Rightarrow> Inr (hit m4 (9 / 10) fld)
                     | Some False \<Rightarrow> Inr m4)
               else Inr m4)
         else if strict_eq fieldValue v then Inr (hit m 1 fld)
         else Inr m)"

fun matchesQuery_loop ::
  "runtime \<Rightarrow> jsval \<Rightarrow> match \<Rightarrow> (string \<times> jsval) list \<Rightarrow> error + match" where
  "matchesQuery_loop rt dat m [] = Inr m"
| "matchesQuery_loop rt dat m (q # qs) =
     (case match_field rt dat m q of
        Inl err \<Rightarrow> Inl err
      | Inr m' \<Rightarrow> matchesQuery_loop rt dat m' qs)"

definition matchesQuery :: "runtime \<Rightarrow> jsval \<Rightarrow> (string \<times> jsval) list \<Rightarrow> error + match" where
  "matchesQuery rt dat query =
     matchesQuery_loop rt dat \<lparr>matched = False, score = 0, match_fields = []\<rparr> query"

record search_hit =
  hit_entry :: entry
  matchScore :: rat
  matchedFields :: "string list"

record search_result =
  results :: "search_hit list"
  search_total :: nat
  search_query :: "(string \<times> jsval) list"

fun search_loop ::
  "runtime \<Rightarrow> (string \<times> jsval) list \<Rightarrow> entry list \<Rightarrow> error + search_hit list" where
  "search_loop rt query [] = Inr []"
| "search_loop rt query (e # es) =
     (case matchesQuery rt (data e) query of
        Inl err \<Rightarrow> Inl err
      | Inr m \<Rightarrow>
          (case search_loop rt query es of
             Inl err \<Rightarrow> Inl err
           | Inr hits \<Rightarrow>
               Inr (if matched m
                    then \<lparr>hit_entry = e, matchScore = score m, matchedFields = match_fields m\<rparr>
                         # hits
                    else hits)))"

text \<open>\<open>search\<close>; \<open>limit\<close> is \<open>options.limit\<close> (\<open>0\<close> when absent).\<close>

definition search ::
  "runtime \<Rightarrow> register \<Rightarrow> (string \<times> jsval) list \<Rightarrow> nat \<Rightarrow> error + search_result" where
  "search rt reg query limit =
     (case search_loop rt query (map snd (storage reg)) of
        Inl err \<Rightarrow> Inl err
      | Inr found \<Rightarrow>
          let ranked = Array_sort (\<lambda>a b. matchScore b - matchScore a) found
          in Inr \<lparr>results = take (if limit = 0 then 50 else limit) ranked,
                  search_total = length ranked,
                  search_query = query\<rparr>)"

subsection \<open>Export and import\<close>

record export_options = list_options +
  includeAuditLog :: bool

record export_payload =
  registerName :: string
  export_schemaId :: jsval
  exportedAt :: string
  totalEntries :: nat
  export_entries :: "listed list"
  export_auditLog :: "audit_entry list option"

definition export :: "env \<Rightarrow> runtime \<Rightarrow> register \<Rightarrow> export_options \<Rightarrow> error + export_payload" where
  "export ev rt reg options =
     (case list_entries rt reg (options\<lparr>l_includeData := True, l_limit := \<infinity>\<rparr>) of
        Inl err \<Rightarrow> Inl err
      | Inr l \<Rightarrow>
          Inr \<lparr>registerName = name reg,
               export_schemaId = schemaId reg,
               exportedAt = now ev,
               totalEntries = list_total l,
               export_entries = listed_entries l,
               export_auditLog = (if includeAuditLog options then Some (auditLog reg) else None)\<rparr>)"

text \<open>The properties \<open>import\<close> reads of an entry-shaped object, here a listed entry.\<close>

definition summary_object :: "entry_summary \<Rightarrow> jsval" where
  "summary_object x =
     JObj [(''id'', JStr (s_id x)),
           (''version'', JNum (of_nat (s_version x))),
           (''status'', JStr (s_status x)),
           (''createdAt'', JStr (s_createdAt x)),
           (''updatedAt'', JStr (s_updatedAt x)),
           (''effectiveFrom'', s_effectiveFrom x),
           (''effectiveTo'', s_effectiveTo x),
           (''metadata'', JObj (s_metadata x))]"

fun listed_object :: "listed \<Rightarrow> jsval" where
  "listed_object (Full e) = entry_object e"
| "listed_object (Summary x) = summary_object x"

fun listed_id :: "listed \<Rightarrow> string" where
  "listed_id (Full e) = entry_id e"
| "listed_id (Summary x) = s_id x"

fun listed_status :: "listed \<Rightarrow> string" where
  "listed_status (Full e) = status e"
| "listed_status (Summary x) = s_status x"

record import_options =
  skipExisting :: bool

record import_results =
  imported :: nat
  skipped :: nat
  import_errors :: "(string \<times> error) list"

text \<open>
  One turn of the loop of \<open>import\<close>: the \<open>try\<close> block around \<open>get\<close> and \<open>add\<close>, and the
  \<open>catch\<close> that records the error and goes on.
\<close>

definition import_entry ::
  "env \<Rightarrow> runtime \<Rightarrow> import_options \<Rightarrow> import_results \<times> register \<Rightarrow> listed
   \<Rightarrow> import_results \<times> register" where
  "import_entry ev rt options acc x =
     (let res = fst acc; reg = snd acc;
          (found, reg0) = (if skipExisting options
                           then get rt reg (listed_id x) no_get_options
                           else (Inr Null, reg))
      in case found of
           Inl err \<Rightarrow>
             (res\<lparr>import_errors := import_errors res @ [(listed_id x, err)]\<rparr>, reg0)
         | Inr (Current e) \<Rightarrow> (res\<lparr>skipped := skipped res + 1\<rparr>, reg0)
         | Inr (Historic hv) \<Rightarrow> (res\<lparr>skipped := skipped res + 1\<rparr>, reg0)
         | Inr Null \<Rightarrow>
             (case add ev reg0
                     (or_else (member (listed_object x) ''data'') (listed_object x))
                     \<lparr>opt_id = Some (listed_id x),
                      opt_effectiveFrom = member (listed_object x) ''effectiveFrom'',
                      opt_effectiveTo = member (listed_object x) ''effectiveTo'',
                      opt_status = Some (listed_status x),
                      opt_source = JStr ''import'',
                      opt_tags = JUndef,
                      opt_category = JUndef,
                      opt_metadata = member (listed_object x) ''metadata'',
                      opt_userId = JUndef\<rparr> of
                (Inl err, reg1) \<Rightarrow>
                  (res\<lparr>import_errors := import_errors res @ [(listed_id x, err)]\<rparr>, reg1)
              | (Inr r, reg1) \<Rightarrow> (res\<lparr>imported := imported res + 1\<rparr>, reg1)))"

text \<open>The turns of the loop of \<open>import\<close>; \<open>evs i\<close> is the environment of turn \<open>i\<close>.\<close>

fun import_loop ::
  "(nat \<Rightarrow> env) \<Rightarrow> runtime \<Rightarrow> import_options \<Rightarrow> nat \<Rightarrow> import_results \<times> register
   \<Rightarrow> listed list \<Rightarrow> import_results \<times> register" where
  "import_loop evs rt options i acc [] = acc"
| "import_loop evs rt options i acc (x # xs) =
     import_loop evs rt options (Suc i) (import_entry (evs i) rt options acc x) xs"

text \<open>
  The argument of \<open>import\<close>: a payload object, with the array of its \<open>entries\<close>
  property when it has one, or a bare array of entries. The loop runs over
  \<open>data.entries || data\<close>. On an object with an \<open>entries\<close> array that is the array. On
  an object without one it is the object itself, which is not iterable. On an array,
  \<open>data.entries\<close> is the method \<open>Array.prototype.entries\<close>: a function, hence truthy, and
  not iterable. In the last two cases \<open>for ... of\<close> throws a \<open>TypeError\<close> before the first
  turn, outside the \<open>try\<close> block.
\<close>

datatype import_data = Payload "listed list option" | Bare "listed list"

definition import_entries ::
  "(nat \<Rightarrow> env) \<Rightarrow> runtime \<Rightarrow> register \<Rightarrow> import_data \<Rightarrow> import_options
   \<Rightarrow> (error + import_results) \<times> register" where
  "import_entries evs rt reg dat options =
     (case dat of
        Payload (Some xs) \<Rightarrow>
          (case import_loop evs rt options 0
                  (\<lparr>imported = 0, skipped = 0, import_errors = []\<rparr>, reg) xs of
             (res, reg') \<Rightarrow> (Inr res, reg'))
      | Payload None \<Rightarrow> (Inl TypeError, reg)
      | Bare xs \<Rightarrow> (Inl TypeError, reg))"

subsection \<open>A runtime for the examples\<close>

text \<open>
  The closed examples below run on this instance of the runtime. It gives \<open>new Date\<close>
  its value on the date strings the examples use (midnight UTC, in milliseconds; a clock
  reading is the full ISO string), compares
  two numbers and two strings as \<open><\<close> does, and prints a string as itself; no example
  uses it on anything else.
\<close>

definition example_dates :: "(string \<times> int) list" where
  "example_dates =
     [(''2023-01-01'', 1672531200000),
      (''2023-06-01'', 1685577600000),
      (''2024-01-01'', 1704067200000),
      (''2024-01-01T00:00:00.000Z'', 1704067200000),
      (''2024-03-01'', 1709251200000),
      (''2024-06-01'', 1717200000000),
      (''2024-06-01T00:00:00.000Z'', 1717200000000),
      (''2024-07-01'', 1719792000000),
      (''2025-01-01'', 1735689600000),
      (''9999-12-31'', 253402214400000)]"

fun string_less :: "string \<Rightarrow> string \<Rightarrow> bool" where
  "string_less [] [] = False"
| "string_less [] (y # ys) = True"
| "string_less (x # xs) [] = False"
| "string_less (x # xs) (y # ys) =
     ((of_char x :: nat) < of_char y \<or> (x = y \<and> string_less xs ys))"

definition example_runtime :: runtime where
  "example_runtime =
     \<lparr>Date_value = (\<lambda>v. case v of JStr s \<Rightarrow> map_of example_dates s | _ \<Rightarrow> None),
      less = (\<lambda>a b. case (a, b) of
                (JNum x, JNum y) \<Rightarrow> x < y
              | (JStr x, JStr y) \<Rightarrow> string_less x y
              | _ \<Rightarrow> False),
      String_of = (\<lambda>v. case v of JStr s \<Rightarrow> s | _ \<Rightarrow> []),
      RegExp_test = (\<lambda>p f s. None)\<rparr>"

subsection \<open>Sequences of operations and the example scenarios\<close>

text \<open>A run of updates on one identifier, each with its own environment, with the outcomes.\<close>

fun update_all ::
  "runtime \<Rightarrow> register \<Rightarrow> string \<Rightarrow> (env \<times> jsval \<times> update_options) list
   \<Rightarrow> (error + update_result) list \<times> register" where
  "update_all rt reg ident [] = ([], reg)"
| "update_all rt reg ident ((ev, document, options) # us) =
     (case update ev rt reg ident document options of
        (out, reg') \<Rightarrow>
          (case update_all rt reg' ident us of (outs, reg'') \<Rightarrow> (out # outs, reg'')))"

definition ev_at :: "string \<Rightarrow> env" where
  "ev_at t = \<lparr>uuid = ''3b241101-e2bb-4255-8caf-4136c566a962'', now = t, log_now = t\<rparr>"

definition amount_doc :: "rat \<Rightarrow> jsval" where
  "amount_doc n = JObj [(''amount'', JNum n)]"

text \<open>
  The scenario of the register examples: an entry \<open>doc\<close> effective from 2023-01-01, updated
  on 2024-01-01 with the same effective date (a retroactive correction) and on 2024-06-01
  with the effective date 2025-01-01. Its history then holds version 1, in effect from
  2023-01-01 to 2024-01-01, and version 2, from 2023-01-01 to 2024-06-01.
\<close>

definition reg_v1 :: register where
  "reg_v1 =
     snd (add (ev_at ''2023-01-01T00:00:00.000Z'') (DocumentRegister no_register_options)
            (amount_doc 100)
            (no_add_options\<lparr>opt_id := Some ''doc'', opt_effectiveFrom := JStr ''2023-01-01''\<rparr>))"

definition two_updates :: "(env \<times> jsval \<times> update_options) list" where
  "two_updates =
     [(ev_at ''2024-01-01T00:00:00.000Z'', amount_doc 150,
       no_update_options\<lparr>u_effectiveFrom := JStr ''2023-01-01''\<rparr>),
      (ev_at ''2024-06-01T00:00:00.000Z'', amount_doc 200,
       no_update_options\<lparr>u_effectiveFrom := JStr ''2025-01-01''\<rparr>)]"

definition reg_v3 :: register where
  "reg_v3 = snd (update_all example_runtime reg_v1 ''doc'' two_updates)"

text \<open>For each stored entry: its key, its version and the versions of its history, in order.\<close>

definition stored_versions :: "register \<Rightarrow> (string \<times> nat \<times> nat list) list" where
  "stored_versions reg = map (\<lambda>(k, e). (k, version e, map h_version (history e))) (storage reg)"

fun lookup_version :: "lookup \<Rightarrow> nat option" where
  "lookup_version Null = None"
| "lookup_version (Current e) = Some (version e)"
| "lookup_version (Historic hv) = Some (hv_version hv)"

definition asOf :: "string \<Rightarrow> get_options" where
  "asOf t = \<lparr>g_version = None, g_asOf = JStr t\<rparr>"

text \<open>
  The scenario with two more entries: \<open>note\<close>, which has no \<open>amount\<close>, and \<open>other\<close>
  with the amount 500; and a query for an amount between 100 and 300.
\<close>

definition reg_two :: register where
  "reg_two =
     snd (add (ev_at ''2024-06-01T00:00:00.000Z'')
            (snd (add (ev_at ''2024-06-01T00:00:00.000Z'') reg_v3
                    (JObj [(''title'', JStr ''note'')])
                    (no_add_options\<lparr>opt_id := Some ''note''\<rparr>)))
            (amount_doc 500)
            (no_add_options\<lparr>opt_id := Some ''other''\<rparr>))"

definition amount_query :: "(string \<times> jsval) list" where
  "amount_query = [(''amount'', JObj [(''$gt'', JNum 100), (''$lt'', JNum 300)])]"

text \<open>
  The round trip: \<open>export\<close> with no options, then \<open>import\<close> of the exported payload
  object into a fresh register. The scenario for it has a second entry, \<open>rule\<close>, added
  from an extraction result whose record has a field named \<open>data\<close>.
\<close>

definition no_export_options :: export_options where
  "no_export_options =
     \<lparr>l_status = None, l_category = JUndef, l_tags = [], l_effectiveAt = JUndef,
      l_schemaId = JUndef, l_sortBy = None, l_sortDir = None, l_offset = 0, l_limit = 0,
      l_includeData = False, includeAuditLog = False\<rparr>"

definition round_trip :: "register \<Rightarrow> (error + import_results) \<times> register" where
  "round_trip reg =
     (case export (ev_at ''2024-07-01T00:00:00.000Z'') example_runtime reg no_export_options of
        Inl err \<Rightarrow> (Inl err, DocumentRegister no_register_options)
      | Inr payload \<Rightarrow>
          import_entries (\<lambda>i. ev_at ''2024-07-01T00:00:00.000Z'') example_runtime
            (DocumentRegister no_register_options) (Payload (Some (export_entries payload)))
            \<lparr>skipExisting = False\<rparr>)"

definition reg_rule :: register where
  "reg_rule =
     snd (add (ev_at ''2024-06-01T00:00:00.000Z'') reg_v3
            (JObj [(''data'', JObj [(''title'', JStr ''Rule 1''), (''data'', JStr ''payload'')])])
            (no_add_options\<lparr>opt_id := Some ''rule''\<rparr>))"

text \<open>The data, metadata and effective dates stored under an identifier.\<close>

definition stored_fields ::
  "register \<Rightarrow> string \<Rightarrow> (jsval \<times> (string \<times> jsval) list \<times> jsval \<times> jsval) option" where
  "stored_fields reg ident =
     map_option (\<lambda>e. (data e, metadata e, effectiveFrom e, effectiveTo e))
       (map_of (storage reg) ident)"

text \<open>
  Two documents with sequential validity: the first ends on 2024-06-01, where the second
  begins, and they give \<open>rate\<close> different values.
\<close>

definition sequential_docs :: "jsval list" where
  "sequential_docs =
     [JObj [(''id'', JStr ''a''), (''version'', JNum 1), (''data'', JObj [(''rate'', JNum 1)]),
            (''effectiveFrom'', JStr ''2024-01-01''), (''effectiveTo'', JStr ''2024-06-01'')],
      JObj [(''id'', JStr ''b''), (''version'', JNum 1), (''data'', JObj [(''rate'', JNum 2)]),
            (''effectiveFrom'', JStr ''2024-06-01''), (''effectiveTo'', JNull)]]"

text \<open>
  The overlap test as the specification words it, for the comparison with the code:
  \<open>[f1, t1)\<close> and \<open>[f2, t2)\<close> overlap iff \<open>f1 < t2\<close> and \<open>f2 < t1\<close>, an open end
  (\<open>None\<close>) being later than every time.
\<close>

definition spec_half_open_overlap :: "int \<Rightarrow> int option \<Rightarrow> int \<Rightarrow> int option \<Rightarrow> bool" where
  "spec_half_open_overlap f1 t1 f2 t2 =
     ((case t2 of None \<Rightarrow> True | Some t \<Rightarrow> f1 < t) \<and> (case t1 of None \<Rightarrow> True | Some t \<Rightarrow> f2 < t))"

text \<open>The classification of the fields in a comparison, and the exchange of added and removed.\<close>

fun mirror :: "change_type \<Rightarrow> change_type" where
  "mirror added = removed"
| "mirror removed = added"
| "mirror t = t"

definition classification :: "comparison \<Rightarrow> string \<Rightarrow> change_type option" where
  "classification r = map_of (map (\<lambda>d. (diff_field d, diff_type d)) (differences r))"

section \<open>Properties of the comparator\<close>

text \<open>Unfolding the definitions evaluates the examples.\<close>

lemmas eval_defs =
  stored_versions_def reg_v3_def reg_v1_def two_updates_def ev_at_def amount_doc_def asOf_def
  add_def update_def get_def archive_def no_add_options_def no_update_options_def
  no_get_options_def no_register_options_def DocumentRegister_def or_default_def or_else_def
  nullish_def spread_def Map_set_def updateIndexes_def index_add_def Set_add_def logAudit_def
  in_effect_def date_le_def date_gt_def example_runtime_def example_dates_def historic_def
  Let_def

lemma strict_eq_sym: "strict_eq a b = strict_eq b a"
  by (cases a; cases b) auto

lemma areEqual_sym: "areEqual a b = areEqual b a"
  using strict_eq_sym[of a b] by (auto simp: areEqual_def)

lemma areEqual_refl: "v \<noteq> JNaN \<Longrightarrow> areEqual v v"
  by (cases v) (auto simp: areEqual_def)

lemma areEqual_undef [simp]:
  "areEqual JUndef b \<longleftrightarrow> b = JUndef" "areEqual a JUndef \<longleftrightarrow> a = JUndef"
  by (cases b; simp add: areEqual_def) (cases a; simp add: areEqual_def)

lemma compareValues_refl: "v \<noteq> JNaN \<Longrightarrow> compareValues c v v f = None"
  by (subst compareValues.simps) (simp add: areEqual_refl)

lemma map_filter_all_None:
  "(\<And>x. x \<in> set xs \<Longrightarrow> g x = None) \<Longrightarrow> List.map_filter g xs = []"
  by (induction xs) (auto simp: List.map_filter_simps)

text \<open>
  Comparing a document with itself reports no difference when none of the fields of its
  data is \<open>NaN\<close>.
\<close>

lemma compare_self_without_NaN:
  assumes "\<not> nullish A"
      and "\<And>field. member (or_else (member A ''data'') A) field \<noteq> JNaN"
  shows "\<exists>r. compare c u t A A = Inr r \<and> identical r \<and> differences r = []"
proof -
  let ?dataA = "or_else (member A ''data'') A"
  have "List.map_filter
          (\<lambda>field. if field \<in> set (ignoreFields c) then None
             else compareValues c (member ?dataA field) (member ?dataA field) field)
          (Set_of (Object_keys ?dataA @ Object_keys ?dataA)) = []"
    by (rule map_filter_all_None) (simp add: compareValues_refl assms(2))
  with assms(1) show ?thesis
    by (simp add: compare_def Let_def)
qed

text \<open>
  Claim C9. \<open>compare(A, A)\<close> is to report no difference for every document. The code
  does not when a field of the data is \<open>NaN\<close>: \<open>_areEqual(NaN, NaN)\<close> is false, since
  \<open>NaN === NaN\<close> is, and the field is reported as a \<open>numeric_change\<close> whose \<open>delta\<close> and
  \<open>percentChange\<close> are \<open>NaN\<close>. The same \<open>NaN\<close> inside an array compares equal, through
  \<open>JSON.stringify\<close>.
\<close>

theorem compare_self_NaN_differs:
  "(\<exists>r. compare DocumentComparator ''id'' ''2024-01-01T00:00:00.000Z''
          (JObj [(''amount'', JNaN)]) (JObj [(''amount'', JNaN)]) = Inr r
        \<and> \<not> identical r
        \<and> map (\<lambda>d. (diff_field d, diff_type d, diff_details d)) (differences r)
          = [(''amount'', numeric_change, NumericDetails NaN (Some NaN))])
   \<and> (\<exists>r. compare DocumentComparator ''id'' ''2024-01-01T00:00:00.000Z''
          (JObj [(''amounts'', JArr [JNaN])]) (JObj [(''amounts'', JArr [JNaN])]) = Inr r
        \<and> identical r \<and> differences r = [])"
  by (simp add: compare_def Let_def nullish_def or_else_def Object_keys_def Set_of_def
      List.map_filter_simps compareValues.simps areEqual_def numericDetails_def
      DocumentComparator_def)

text \<open>
  What \<open>_compareValues\<close> returns, without the details: nothing exactly when the two values
  are equal, and otherwise a difference of the type \<open>changeType\<close> names.
\<close>

definition changeType :: "comparator \<Rightarrow> jsval \<Rightarrow> jsval \<Rightarrow> change_type" where
  "changeType c a b =
     (if a = JUndef then added
      else if b = JUndef then removed
      else if typeof a = T_number \<and> typeof b = T_number then numeric_change
      else if typeof a = T_string \<and> typeof b = T_string then text_change
      else if isArray a \<and> isArray b then array_change
      else if deepCompare c \<and> typeof a = T_object \<and> typeof b = T_object then object_change
      else modified)"

definition dataOf :: "jsval \<Rightarrow> jsval" where
  "dataOf doc = or_else (member doc ''data'') doc"

definition fieldDiff :: "comparator \<Rightarrow> jsval \<Rightarrow> jsval \<Rightarrow> string \<Rightarrow> diff option" where
  "fieldDiff c dataA dataB f =
     (if f \<in> set (ignoreFields c) then None
      else compareValues c (member dataA f) (member dataB f) f)"

lemma compareValues_None: "compareValues c a b f = None \<longleftrightarrow> areEqual a b"
  by (cases "a = JUndef"; cases "b = JUndef"; subst compareValues.simps) simp_all

lemma compareValues_Some:
  "\<not> areEqual a b \<Longrightarrow>
   \<exists>d. compareValues c a b f = Some d \<and> diff_field d = f \<and> diff_type d = changeType c a b"
  by (cases "a = JUndef"; cases "b = JUndef"; subst compareValues.simps)
     (simp_all add: changeType_def)

lemma changeType_sym: "\<not> areEqual a b \<Longrightarrow> changeType c b a = mirror (changeType c a b)"
  by (cases "a = JUndef"; cases "b = JUndef") (auto simp: changeType_def)

lemma set_Set_of [simp]: "set (Set_of xs) = set xs"
  by (simp add: Set_of_def)

lemma distinct_Set_of [simp]: "distinct (Set_of xs)"
  by (simp add: Set_of_def)

lemma fieldDiff_field: "fieldDiff c x y k = Some d \<Longrightarrow> diff_field d = k"
  using compareValues_Some[of "member x k" "member y k" c k]
    compareValues_None[of c "member x k" "member y k" k]
  by (auto simp: fieldDiff_def split: if_splits)

lemma fieldDiff_None_sym: "fieldDiff c y x k = None \<longleftrightarrow> fieldDiff c x y k = None"
  by (simp add: fieldDiff_def compareValues_None areEqual_sym[of "member y k"])

lemma fieldDiff_type_sym:
  assumes "fieldDiff c x y k = Some d" and "fieldDiff c y x k = Some d'"
  shows "diff_type d' = mirror (diff_type d)"
proof -
  from assms(1) have ne: "\<not> areEqual (member x k) (member y k)"
    and ni: "k \<notin> set (ignoreFields c)"
    using compareValues_None[of c "member x k" "member y k" k]
    by (auto simp: fieldDiff_def split: if_splits)
  from ne have ne': "\<not> areEqual (member y k) (member x k)"
    by (simp add: areEqual_sym)
  from compareValues_Some[OF ne, of c k] assms(1) ni
  have 1: "diff_type d = changeType c (member x k) (member y k)"
    by (auto simp: fieldDiff_def)
  from compareValues_Some[OF ne', of c k] assms(2) ni
  have 2: "diff_type d' = changeType c (member y k) (member x k)"
    by (auto simp: fieldDiff_def)
  from 1 2 changeType_sym[OF ne] show ?thesis by simp
qed

lemma map_filter_fields:
  assumes "\<And>k d. g k = Some d \<Longrightarrow> diff_field d = k"
  shows "map diff_field (List.map_filter g ks) = filter (\<lambda>k. g k \<noteq> None) ks"
  using assms by (induction ks) (auto simp: List.map_filter_simps split: option.splits)

lemma map_of_map_filter:
  assumes "\<And>k d. g k = Some d \<Longrightarrow> diff_field d = k"
  shows "map_of (map (\<lambda>d. (diff_field d, diff_type d)) (List.map_filter g ks)) f
         = (if f \<in> set ks then map_option diff_type (g f) else None)"
  using assms
proof (induction ks)
  case Nil
  show ?case by (simp add: List.map_filter_simps)
next
  case (Cons k ks)
  then show ?case
    by (cases "g k") (auto simp: List.map_filter_simps)
qed

lemma compare_Inr:
  assumes "\<not> nullish A" and "\<not> nullish B"
  shows "\<exists>r. compare c u n A B = Inr r
          \<and> differences r = List.map_filter (fieldDiff c (dataOf A) (dataOf B))
                (Set_of (Object_keys (dataOf A) @ Object_keys (dataOf B)))"
proof -
  have eq: "(\<lambda>field. if field \<in> set (ignoreFields c) then None
                 else compareValues c (member (dataOf A) field) (member (dataOf B) field) field)
        = fieldDiff c (dataOf A) (dataOf B)"
    by (simp add: fieldDiff_def fun_eq_iff)
  from assms show ?thesis
    by (simp add: compare_def Let_def eq[unfolded dataOf_def] dataOf_def)
qed

text \<open>
  Claim C6. \<open>compare(A, B)\<close> and \<open>compare(B, A)\<close> report the same set of field names, in
  lists of the same length, and classify each field the same way except that \<open>added\<close>
  in one direction is \<open>removed\<close> in the other: the classification of the second is the
  mirror image of the classification of the first.
\<close>

theorem compare_symmetric:
  assumes "\<not> nullish A" and "\<not> nullish B"
  shows "\<exists>rAB rBA. compare c u n A B = Inr rAB \<and> compare c u' n' B A = Inr rBA
           \<and> set (map diff_field (differences rAB)) = set (map diff_field (differences rBA))
           \<and> length (differences rAB) = length (differences rBA)
           \<and> (\<forall>f. classification rBA f = map_option mirror (classification rAB f))"
proof -
  define x where "x = dataOf A"
  define y where "y = dataOf B"
  define ksAB where "ksAB = Set_of (Object_keys x @ Object_keys y)"
  define ksBA where "ksBA = Set_of (Object_keys y @ Object_keys x)"
  define dsAB where "dsAB = List.map_filter (fieldDiff c x y) ksAB"
  define dsBA where "dsBA = List.map_filter (fieldDiff c y x) ksBA"
  obtain rAB where rAB: "compare c u n A B = Inr rAB" "differences rAB = dsAB"
    using compare_Inr[OF assms, of c u n] unfolding dsAB_def ksAB_def x_def y_def by blast
  obtain rBA where rBA: "compare c u' n' B A = Inr rBA" "differences rBA = dsBA"
    using compare_Inr[OF assms(2,1), of c u' n'] unfolding dsBA_def ksBA_def x_def y_def by blast
  have ks: "set ksAB = set ksBA"
    by (auto simp: ksAB_def ksBA_def)
  have fAB: "map diff_field dsAB = filter (\<lambda>k. fieldDiff c x y k \<noteq> None) ksAB"
    unfolding dsAB_def by (rule map_filter_fields) (rule fieldDiff_field)
  have fBA0: "map diff_field dsBA = filter (\<lambda>k. fieldDiff c y x k \<noteq> None) ksBA"
    unfolding dsBA_def by (rule map_filter_fields) (rule fieldDiff_field)
  have fBA: "map diff_field dsBA = filter (\<lambda>k. fieldDiff c x y k \<noteq> None) ksBA"
    by (simp only: fBA0 fieldDiff_None_sym[of c y x])
  have sets: "set (map diff_field dsAB) = set (map diff_field dsBA)"
    by (simp only: fAB fBA set_filter ks)
  have dAB: "distinct (map diff_field dsAB)"
    by (simp only: fAB) (simp add: ksAB_def)
  have dBA: "distinct (map diff_field dsBA)"
    by (simp only: fBA) (simp add: ksBA_def)
  have "length (map diff_field dsAB) = length (map diff_field dsBA)"
    using distinct_card[OF dAB] distinct_card[OF dBA] sets by simp
  then have len: "length dsAB = length dsBA"
    by simp
  have cls: "classification rBA f = map_option mirror (classification rAB f)" for f
  proof -
    have 1: "classification rAB f
             = (if f \<in> set ksAB then map_option diff_type (fieldDiff c x y f) else None)"
      unfolding classification_def rAB dsAB_def
      by (rule map_of_map_filter) (rule fieldDiff_field)
    have 2: "classification rBA f
             = (if f \<in> set ksBA then map_option diff_type (fieldDiff c y x f) else None)"
      unfolding classification_def rBA dsBA_def
      by (rule map_of_map_filter) (rule fieldDiff_field)
    show ?thesis
    proof (cases "fieldDiff c x y f")
      case None
      then have "fieldDiff c y x f = None"
        by (simp only: fieldDiff_None_sym[of c y x f])
      with None show ?thesis
        by (simp add: 1 2)
    next
      case (Some d)
      then have "fieldDiff c y x f \<noteq> None"
        by (simp add: fieldDiff_None_sym[of c y x f])
      then obtain d' where d': "fieldDiff c y x f = Some d'"
        by blast
      from fieldDiff_type_sym[OF Some d'] Some d' show ?thesis
        by (simp add: 1 2 ks)
    qed
  qed
  from rAB rBA sets len cls show ?thesis
    by auto
qed

theorem compare_symmetric_witness:
  "\<not> nullish (JObj [(''amount'', JNum 100), (''old'', JStr ''x'')])
   \<and> \<not> nullish (JObj [(''amount'', JNum 150), (''new'', JBool True)])
   \<and> (\<exists>rAB rBA.
        compare DocumentComparator ''c1'' ''2024-01-01T00:00:00.000Z''
          (JObj [(''amount'', JNum 100), (''old'', JStr ''x'')])
          (JObj [(''amount'', JNum 150), (''new'', JBool True)]) = Inr rAB
        \<and> compare DocumentComparator ''c2'' ''2024-06-01T00:00:00.000Z''
            (JObj [(''amount'', JNum 150), (''new'', JBool True)])
            (JObj [(''amount'', JNum 100), (''old'', JStr ''x'')]) = Inr rBA
        \<and> set (map diff_field (differences rAB)) = set (map diff_field (differences rBA))
        \<and> length (differences rAB) = length (differences rBA)
        \<and> (\<forall>f. classification rBA f = map_option mirror (classification rAB f)))"
proof -
  have a: "\<not> nullish (JObj [(''amount'', JNum 100), (''old'', JStr ''x'')])"
    by (simp add: nullish_def)
  have b: "\<not> nullish (JObj [(''amount'', JNum 150), (''new'', JBool True)])"
    by (simp add: nullish_def)
  from a b compare_symmetric[OF a b] show ?thesis
    by blast
qed

text \<open>
  Claim C1. \<open>findConflicts\<close> is to flag a field only when its values differ and two of the
  documents' validity intervals overlap under the half-open test. The code does not: the
  records it collects for a field carry no \<open>effectiveTo\<close>, so \<open>_findOverlappingPeriods\<close>
  takes every interval as running to 9999-12-31, and it compares with \<open><=\<close>. On the two
  sequential documents the field \<open>rate\<close> is flagged, with the period from 2024-06-01 to
  9999-12-31 as the overlap, although their intervals do not overlap under the test.
\<close>

theorem findConflicts_flags_sequential:
  "(\<exists>r. findConflicts example_runtime sequential_docs \<lparr>conflictFields = None\<rparr> = Inr r
        \<and> hasConflicts r
        \<and> map (\<lambda>c. (conflict_field c, map (\<lambda>p. (overlapStart p, overlapEnd p)) (overlappingPeriods c)))
            (conflicts r)
          = [(''rate'', [(1717200000000, 253402214400000)])])
   \<and> map (\<lambda>d. (Date_value example_runtime (member d ''effectiveFrom''),
                Date_value example_runtime (member d ''effectiveTo''))) sequential_docs
     = [(Some 1704067200000, Some 1717200000000), (Some 1717200000000, None)]
   \<and> \<not> spec_half_open_overlap 1704067200000 (Some 1717200000000) 1717200000000 None"
  by (simp add: findConflicts_def sequential_docs_def nullish_def collect_document_def
      or_else_def push_value_def Set_of_def findOverlappingPeriods_def List.map_filter_simps
      overlapOf_def example_runtime_def example_dates_def date_le_def Array_sort_def Let_def
      spec_half_open_overlap_def)

section \<open>Properties of the register\<close>

lemma map_of_replace:
  "map_of (map (\<lambda>(k', v'). if k' = k then (k', v) else (k', v')) m) x
   = (if x = k then (if map_of m k = None then None else Some v) else map_of m x)"
  by (induction m) auto

lemma map_of_Map_set: "map_of (Map_set m k v) x = (if x = k then Some v else map_of m x)"
proof (cases "k \<in> fst ` set m")
  case True
  then show ?thesis
    by (simp add: Map_set_def map_of_replace map_of_eq_None_iff)
next
  case False
  then have "map_of m k = None"
    by (simp add: map_of_eq_None_iff)
  with False show ?thesis
    by (auto simp: Map_set_def map_add_def split: option.splits)
qed

lemma get_plain:
  "get rt reg ident no_get_options =
     (case map_of (storage reg) ident of None \<Rightarrow> (Inr Null, reg) | Some e \<Rightarrow> (Inr (Current e), reg))"
  by (simp add: get_def no_get_options_def split: option.splits)

text \<open>The entry \<open>update\<close> stores: the object \<open>updated\<close> of the source.\<close>

definition updated_entry :: "env \<Rightarrow> register \<Rightarrow> entry \<Rightarrow> jsval \<Rightarrow> update_options \<Rightarrow> entry" where
  "updated_entry ev reg existing document options =
     existing
       \<lparr>version := version existing + 1,
        updatedAt := now ev,
        effectiveFrom := or_else (u_effectiveFrom options) (JStr (now ev)),
        effectiveTo := or_else (u_effectiveTo options) JNull,
        data := or_else (member document ''data'') document,
        metadata :=
          spread
            (spread (metadata existing)
               [(''schemaId'', or_else (member document ''schemaId'')
                                 (member (JObj (metadata existing)) ''schemaId'')),
                (''schemaVersion'', or_else (member document ''schemaVersion'')
                                 (member (JObj (metadata existing)) ''schemaVersion'')),
                (''extractionId'', member document ''extractionId''),
                (''confidence'', member document ''confidence'')])
            (Object_entries (u_metadata options)),
        citations := or_else (member document ''citations'') (citations existing),
        history := (if enableVersioning reg
                    then history existing
                         @ [\<lparr>h_version = version existing,
                             h_data = data existing,
                             h_metadata = metadata existing,
                             h_effectiveFrom = effectiveFrom existing,
                             h_effectiveTo = JStr (now ev),
                             h_archivedAt = now ev\<rparr>]
                    else [])\<rparr>"

lemma update_absent:
  "map_of (storage reg) ident = None \<Longrightarrow>
   update ev rt reg ident document options = (Inl (EntryNotFound ident), reg)"
  by (simp add: update_def get_plain)

lemma update_nullish:
  "map_of (storage reg) ident = Some e \<Longrightarrow> nullish document \<Longrightarrow>
   update ev rt reg ident document options = (Inl TypeError, reg)"
  by (simp add: update_def get_plain)

lemma update_present:
  assumes "map_of (storage reg) ident = Some e" and "\<not> nullish document"
  shows "\<exists>out reg'. update ev rt reg ident document options = (out, reg')
          \<and> storage reg' = Map_set (storage reg) ident (updated_entry ev reg e document options)
          \<and> enableVersioning reg' = enableVersioning reg
          \<and> (out = Inl TypeError
              \<or> out = Inr \<lparr>updated_id = ident, updated_version = version e + 1,
                           previousVersion = version e, updated_updatedAt = now ev,
                           updated_status = ''updated''\<rparr>)"
  using assms
  by (simp add: update_def get_plain updated_entry_def Let_def logAudit_def split: prod.splits)


lemma add_stores:
  assumes "add ev reg document options = (Inr r, reg1)"
  shows "\<exists>e. map_of (storage reg1) (added_id r) = Some e \<and> version e = 1 \<and> history e = []
          \<and> enableVersioning reg1 = enableVersioning reg"
  using assms
  by (auto simp: add_def Let_def logAudit_def map_of_Map_set split: if_splits prod.splits)

lemma update_all_versions:
  assumes "enableVersioning reg"
      and "map_of (storage reg) ident = Some e"
      and "map h_version (history e) = [1..<version e]" and "1 \<le> version e"
      and "update_all rt reg ident us = (outs, regN)"
  shows "\<exists>e'. map_of (storage regN) ident = Some e'
          \<and> map h_version (history e') = [1..<version e'] \<and> 1 \<le> version e'
          \<and> ((\<forall>out \<in> set outs. \<exists>u. out = Inr u)
               \<longrightarrow> version e' = version e + length us
                 \<and> map (map_sum id updated_version) outs
                     = map (\<lambda>k. Inr (version e + 1 + k)) [0..<length us])"
  using assms
proof (induction us arbitrary: reg e outs)
  case Nil
  then show ?case by simp
next
  case (Cons u us)
  obtain ev document options where u: "u = (ev, document, options)"
    by (cases u) auto
  obtain out reg' where step: "update ev rt reg ident document options = (out, reg')"
    by (cases "update ev rt reg ident document options") auto
  obtain outs' where rest: "update_all rt reg' ident us = (outs', regN)" and outs: "outs = out # outs'"
    using Cons.prems(5) u step by (auto split: prod.splits)
  show ?case
  proof (cases "nullish document")
    case True
    with Cons.prems(2) step have same: "reg' = reg" "out = Inl TypeError"
      by (simp_all add: update_nullish)
    from Cons.IH[OF Cons.prems(1-4) rest[unfolded same]]
    show ?thesis
      by (auto simp: outs same)
  next
    case False
    define e1 where "e1 = updated_entry ev reg e document options"
    from update_present[OF Cons.prems(2) False, of ev rt options] step
    have st: "storage reg' = Map_set (storage reg) ident e1"
      and ev': "enableVersioning reg'"
      and out: "out = Inl TypeError \<or> (\<exists>u. out = Inr u \<and> updated_version u = version e + 1)"
      using Cons.prems(1) by (auto simp: e1_def)
    have 1: "map_of (storage reg') ident = Some e1"
      by (simp add: st map_of_Map_set)
    have 2: "map h_version (history e1) = [1..<version e1]" "1 \<le> version e1"
      and v1: "version e1 = version e + 1"
      using Cons.prems(1,3,4) by (simp_all add: e1_def updated_entry_def)
    from Cons.IH[OF ev' 1 2 rest]
    obtain e' where e': "map_of (storage regN) ident = Some e'"
        "map h_version (history e') = [1..<version e']" "1 \<le> version e'"
        "(\<forall>out \<in> set outs'. \<exists>u. out = Inr u)
           \<longrightarrow> version e' = version e1 + length us
             \<and> map (map_sum id updated_version) outs'
                 = map (\<lambda>k. Inr (version e1 + 1 + k)) [0..<length us]"
      by blast
    have "version e' = version e + length (u # us)
           \<and> map (map_sum id updated_version) outs
               = map (\<lambda>k. Inr (version e + 1 + k)) [0..<length (u # us)]"
      if ok: "\<forall>out \<in> set outs. \<exists>u. out = Inr u"
    proof -
      from ok outs out obtain r where r: "out = Inr r" "updated_version r = version e + 1"
        by auto
      from ok outs e'(4) have rest': "version e' = version e1 + length us"
        "map (map_sum id updated_version) outs' = map (\<lambda>k. Inr (version e1 + 1 + k)) [0..<length us]"
        by auto
      have "map (\<lambda>k. Inr (version e + 1 + k)) [0..<length (u # us)]
            = Inr (version e + 1) # map (\<lambda>k. (Inr (version e1 + 1 + k) :: error + nat)) [0..<length us]"
        by (simp add: v1 upt_rec[of 0 "Suc (length us)"] map_Suc_upt[symmetric] del: upt_Suc)
      with r rest' show ?thesis
        by (simp add: outs v1)
    qed
    with e' show ?thesis
      by blast
  qed
qed

text \<open>
  Claim C3. After one \<open>add\<close> and any run of updates on the identifier it returned, in a
  register that keeps versions (the default), the stored entry's history has
  \<open>version - 1\<close> records and the versions held by the entry and its history are exactly
  \<open>1..version\<close>; when all \<open>N\<close> updates return, the version is \<open>N + 1\<close> and the \<open>k\<close>-th
  update reports the new version \<open>k + 1\<close>.
\<close>

theorem add_then_updates_versions:
  assumes "enableVersioning reg"
      and "add ev reg document options = (Inr r, reg1)"
      and "update_all rt reg1 (added_id r) us = (outs, regN)"
  shows "\<exists>e. map_of (storage regN) (added_id r) = Some e
          \<and> length (history e) = version e - 1
          \<and> insert (version e) (set (map h_version (history e))) = {1..version e}
          \<and> ((\<forall>out \<in> set outs. \<exists>u. out = Inr u)
               \<longrightarrow> version e = length us + 1
                 \<and> map (map_sum id updated_version) outs = map (\<lambda>k. Inr (k + 2)) [0..<length us])"
proof -
  from add_stores[OF assms(2)] obtain e1 where e1: "map_of (storage reg1) (added_id r) = Some e1"
      "version e1 = 1" "history e1 = []" "enableVersioning reg1 = enableVersioning reg"
    by blast
  have inv1: "map h_version (history e1) = [1..<version e1]" "1 \<le> version e1"
    by (simp_all add: e1)
  have en1: "enableVersioning reg1"
    by (simp add: e1 assms(1))
  from update_all_versions[OF en1 e1(1) inv1 assms(3)]
  obtain e where e: "map_of (storage regN) (added_id r) = Some e"
      "map h_version (history e) = [1..<version e]" "1 \<le> version e"
      "(\<forall>out \<in> set outs. \<exists>u. out = Inr u)
         \<longrightarrow> version e = version e1 + length us
           \<and> map (map_sum id updated_version) outs
               = map (\<lambda>k. Inr (version e1 + 1 + k)) [0..<length us]"
    by blast
  have "length (map h_version (history e)) = length [1..<version e]"
    by (simp only: e(2))
  then have len: "length (history e) = version e - 1"
    by simp
  have "set (map h_version (history e)) = {1..<version e}"
    by (simp only: e(2) set_upt)
  then have vs: "insert (version e) (set (map h_version (history e))) = {1..version e}"
    using e(3) by (simp only: atLeastLessThanSuc_atLeastAtMost[symmetric] atLeastLessThanSuc) simp
  have fin: "version e = length us + 1
              \<and> map (map_sum id updated_version) outs = map (\<lambda>k. Inr (k + 2)) [0..<length us]"
    if "\<forall>out \<in> set outs. \<exists>u. out = Inr u"
  proof -
    from that e(4) have "version e = version e1 + length us"
      and "map (map_sum id updated_version) outs
             = map (\<lambda>k. Inr (version e1 + 1 + k)) [0..<length us]"
      by blast+
    then show ?thesis
      by (simp add: e1(2) add.commute)
  qed
  from e(1) len vs fin show ?thesis
    by blast
qed

theorem add_then_updates_versions_witness:
  "enableVersioning (DocumentRegister no_register_options)
   \<and> (\<exists>r reg1 outs regN e.
        add (ev_at ''2023-01-01T00:00:00.000Z'') (DocumentRegister no_register_options)
          (amount_doc 100) no_add_options = (Inr r, reg1)
        \<and> update_all example_runtime reg1 (added_id r) two_updates = (outs, regN)
        \<and> (\<forall>out \<in> set outs. \<exists>u. out = Inr u)
        \<and> map_of (storage regN) (added_id r) = Some e
        \<and> version e = 3 \<and> length (history e) = 2
        \<and> insert (version e) (set (map h_version (history e))) = {1..3})"
proof -
  let ?reg = "DocumentRegister no_register_options"
  let ?a = "add (ev_at ''2023-01-01T00:00:00.000Z'') ?reg (amount_doc 100) no_add_options"
  have en: "enableVersioning ?reg"
    by (simp add: eval_defs)
  obtain r where r: "fst ?a = Inr r" and rid: "added_id r = ''3b241101-e2bb-4255-8caf-4136c566a962''"
    by (simp add: eval_defs)
  let ?u = "update_all example_runtime (snd ?a) (added_id r) two_updates"
  have a: "?a = (Inr r, snd ?a)"
    using r by (simp add: prod_eq_iff)
  have u: "?u = (fst ?u, snd ?u)"
    by simp
  have ok: "\<forall>out \<in> set (fst ?u). \<exists>x. out = Inr x"
    unfolding rid by (simp add: eval_defs)
  from add_then_updates_versions[OF en a u]
  obtain e where e: "map_of (storage (snd ?u)) (added_id r) = Some e"
      "length (history e) = version e - 1"
      "insert (version e) (set (map h_version (history e))) = {1..version e}"
      "(\<forall>out \<in> set (fst ?u). \<exists>x. out = Inr x) \<longrightarrow> version e = length two_updates + 1"
    by blast
  from e(4) ok have v: "version e = 3"
    by (simp add: two_updates_def)
  have "?a = (Inr r, snd ?a) \<and> ?u = (fst ?u, snd ?u)
        \<and> (\<forall>out \<in> set (fst ?u). \<exists>x. out = Inr x)
        \<and> map_of (storage (snd ?u)) (added_id r) = Some e
        \<and> version e = 3 \<and> length (history e) = 2
        \<and> insert (version e) (set (map h_version (history e))) = {1..3}"
    using a ok e(1,2,3) v by simp
  with en show ?thesis
    by blast
qed

text \<open>
  Claim C4. No operation is to reorder a stored history. \<open>get\<close> with \<open>asOf\<close> does: in the
  scenario the history of \<open>doc\<close> holds the versions 1, 2 in this order, and after one
  \<open>get(doc, {asOf: '2023-06-01'})\<close> the stored history holds them in the order 2, 1.
\<close>

theorem get_asOf_reorders_history:
  "stored_versions reg_v3 = [(''doc'', 3, [1, 2])]
   \<and> stored_versions (snd (get example_runtime reg_v3 ''doc'' (asOf ''2023-06-01'')))
       = [(''doc'', 3, [2, 1])]"
  by (simp add: eval_defs)

text \<open>
  Claim C2. \<open>get\<close> with \<open>asOf\<close> is to return the most recently appended history record
  whose interval contains the time. In the scenario the versions 1 and 2 both contain
  2023-06-01; the first \<open>get(doc, {asOf: '2023-06-01'})\<close> returns version 2, and the same
  call made again returns version 1, because the first call left the history reversed.
\<close>

theorem get_asOf_twice_differs:
  "map_sum id lookup_version (fst (get example_runtime reg_v3 ''doc'' (asOf ''2023-06-01'')))
     = Inr (Some 2)
   \<and> map_sum id lookup_version
       (fst (get example_runtime (snd (get example_runtime reg_v3 ''doc'' (asOf ''2023-06-01'')))
               ''doc'' (asOf ''2023-06-01'')))
     = Inr (Some 1)"
  by (simp add: eval_defs)

lemma get_absent: "map_of (storage reg) ident = None \<Longrightarrow> get rt reg ident options = (Inr Null, reg)"
  by (simp add: get_def)

lemma archive_absent:
  "map_of (storage reg) ident = None \<Longrightarrow>
   archive ev rt reg ident options = (Inl (EntryNotFound ident), reg)"
  by (simp add: archive_def get_plain)

lemma get_version_missing:
  assumes "map_of (storage reg) ident = Some e" and "v \<noteq> 0" and "v \<noteq> version e"
      and "\<forall>h \<in> set (history e). h_version h \<noteq> v"
  shows "get rt reg ident \<lparr>g_version = Some v, g_asOf = a\<rparr> = (Inl (VersionNotFound v ident), reg)"
proof -
  from assms(4) have "find (\<lambda>h. h_version h = v) (history e) = None"
    by (simp add: find_None_iff)
  with assms(1-3) show ?thesis
    by (simp add: get_def)
qed

text \<open>
  Claim C7, as the code has it. For an identifier absent from storage \<open>get\<close> returns null
  under any options and leaves the register as it is; \<open>update\<close> and \<open>archive\<close> fail
  with the entry-not-found error and leave the register as it is. For a stored entry,
  \<open>get\<close> with a version that is not zero and is neither the current one nor one of the
  history fails with the version-not-found error.
\<close>

theorem unknown_id_and_version:
  "(map_of (storage reg) ident = None \<longrightarrow>
      get rt reg ident options = (Inr Null, reg)
      \<and> update ev rt reg ident document uo = (Inl (EntryNotFound ident), reg)
      \<and> archive ev rt reg ident ao = (Inl (EntryNotFound ident), reg))
   \<and> (map_of (storage reg') other = Some e \<and> v \<noteq> 0 \<and> v \<noteq> version e
        \<and> (\<forall>h \<in> set (history e). h_version h \<noteq> v) \<longrightarrow>
      get rt' reg' other \<lparr>g_version = Some v, g_asOf = a\<rparr>
        = (Inl (VersionNotFound v other), reg'))"
proof (intro conjI impI)
  assume absent: "map_of (storage reg) ident = None"
  show "get rt reg ident options = (Inr Null, reg)"
    by (rule get_absent[OF absent])
  show "update ev rt reg ident document uo = (Inl (EntryNotFound ident), reg)"
    by (rule update_absent[OF absent])
  show "archive ev rt reg ident ao = (Inl (EntryNotFound ident), reg)"
    by (rule archive_absent[OF absent])
next
  assume "map_of (storage reg') other = Some e \<and> v \<noteq> 0 \<and> v \<noteq> version e
        \<and> (\<forall>h \<in> set (history e). h_version h \<noteq> v)"
  then show "get rt' reg' other \<lparr>g_version = Some v, g_asOf = a\<rparr>
        = (Inl (VersionNotFound v other), reg')"
    using get_version_missing[of reg' other e v rt' a] by blast
qed

text \<open>
  Claim C7 as stated fails: \<open>get\<close> of an unknown identifier returns null, not an error,
  and \<open>get\<close> with \<open>version: 0\<close>, which matches no version, returns the current entry.
\<close>

theorem get_unknown_returns_null:
  "get example_runtime reg_v3 ''missing'' no_get_options = (Inr Null, reg_v3)
   \<and> map_sum id lookup_version
       (fst (get example_runtime reg_v3 ''doc'' \<lparr>g_version = Some 0, g_asOf = JUndef\<rparr>))
     = Inr (Some 3)"
  by (simp add: eval_defs)

theorem unknown_id_and_version_witness:
  "map_of (storage (DocumentRegister no_register_options)) ''missing'' = None
   \<and> get example_runtime (DocumentRegister no_register_options) ''missing'' (asOf ''2023-06-01'')
       = (Inr Null, DocumentRegister no_register_options)
   \<and> update (ev_at ''2024-07-01'') example_runtime (DocumentRegister no_register_options)
         ''missing'' (amount_doc 1) no_update_options
       = (Inl (EntryNotFound ''missing''), DocumentRegister no_register_options)
   \<and> archive (ev_at ''2024-07-01'') example_runtime (DocumentRegister no_register_options)
         ''missing'' \<lparr>ar_reason = JUndef, ar_userId = JUndef\<rparr>
       = (Inl (EntryNotFound ''missing''), DocumentRegister no_register_options)
   \<and> (\<exists>e. map_of (storage reg_v3) ''doc'' = Some e \<and> (7::nat) \<noteq> 0 \<and> 7 \<noteq> version e
          \<and> (\<forall>h \<in> set (history e). h_version h \<noteq> 7))
   \<and> get example_runtime reg_v3 ''doc'' \<lparr>g_version = Some 7, g_asOf = JUndef\<rparr>
       = (Inl (VersionNotFound 7 ''doc''), reg_v3)"
proof -
  have 1: "map_of (storage (DocumentRegister no_register_options)) ''missing'' = None"
    by (simp add: DocumentRegister_def)
  obtain e where 2: "map_of (storage reg_v3) ''doc'' = Some e" and 3: "7 \<noteq> version e"
    and 4: "\<forall>h \<in> set (history e). h_version h \<noteq> 7"
    by (simp add: eval_defs)
  have 0: "(7::nat) \<noteq> 0" by simp
  note inst = unknown_id_and_version[where reg = "DocumentRegister no_register_options"
      and ident = "''missing''" and rt = example_runtime
      and options = "asOf ''2023-06-01''" and ev = "ev_at ''2024-07-01''"
      and document = "amount_doc 1" and uo = no_update_options
      and ao = "\<lparr>ar_reason = JUndef, ar_userId = JUndef\<rparr>"
      and reg' = reg_v3 and other = "''doc''" and e = e and v = 7 and rt' = example_runtime
      and a = JUndef]
  from inst 0 1 2 3 4 show ?thesis
    by blast
qed

text \<open>The entry \<open>add\<close> stores: the object \<open>entry\<close> of the source.\<close>

definition added_entry :: "env \<Rightarrow> register \<Rightarrow> jsval \<Rightarrow> add_options \<Rightarrow> entry" where
  "added_entry ev reg document options =
     \<lparr>entry_id = or_default (opt_id options) (uuid ev),
      version = 1,
      createdAt = now ev,
      updatedAt = now ev,
      effectiveFrom = or_else (opt_effectiveFrom options) (JStr (now ev)),
      effectiveTo = or_else (opt_effectiveTo options) JNull,
      status = or_default (opt_status options) ''active'',
      data = or_else (member document ''data'') document,
      metadata =
        spread
          [(''schemaId'', or_else (member document ''schemaId'') (schemaId reg)),
           (''schemaVersion'', member document ''schemaVersion''),
           (''extractionId'', member document ''extractionId''),
           (''confidence'', member document ''confidence''),
           (''source'', or_else (opt_source options) JNull),
           (''tags'', or_else (opt_tags options) (JArr [])),
           (''category'', or_else (opt_category options) JNull)]
          (Object_entries (opt_metadata options)),
      citations = or_else (member document ''citations'') (JArr []),
      history = [],
      archival = None\<rparr>"

lemma add_present:
  assumes "\<not> nullish document"
  shows "\<exists>out reg'. add ev reg document options = (out, reg')
          \<and> storage reg' = Map_set (storage reg) (or_default (opt_id options) (uuid ev))
                             (added_entry ev reg document options)
          \<and> enableVersioning reg' = enableVersioning reg
          \<and> schemaId reg' = schemaId reg
          \<and> (out = Inl TypeError
              \<or> out = Inr \<lparr>added_id = or_default (opt_id options) (uuid ev), added_version = 1,
                           added_createdAt = now ev, added_status = ''created''\<rparr>)
          \<and> (fst (updateIndexes (indexes reg) (added_entry ev reg document options))
               \<longrightarrow> out \<noteq> Inl TypeError)"
  using assms
  by (simp add: add_def added_entry_def Let_def logAudit_def split: prod.splits)

lemma map_fst_Map_set: "k \<in> fst ` set m \<Longrightarrow> map fst (Map_set m k v) = map fst m"
  by (auto simp: Map_set_def)

lemma updateIndexes_plain:
  "member (JObj (metadata e)) ''tags'' = JArr [] \<Longrightarrow> fst (updateIndexes ix e)"
  by (simp add: updateIndexes_def Let_def)

lemma added_entry_plain_tags:
  "member (JObj (metadata (added_entry ev reg document (no_add_options\<lparr>opt_id := i\<rparr>)))) ''tags''
   = JArr []"
  by (simp add: added_entry_def no_add_options_def spread_def or_else_def)

text \<open>
  The document and the options one turn of \<open>import\<close> passes to \<open>add\<close>, and the pairs
  of key and entry the turns write to the store, in order.
\<close>

definition import_document :: "listed \<Rightarrow> jsval" where
  "import_document x = or_else (member (listed_object x) ''data'') (listed_object x)"

definition import_add_options :: "listed \<Rightarrow> add_options" where
  "import_add_options x =
     \<lparr>opt_id = Some (listed_id x),
      opt_effectiveFrom = member (listed_object x) ''effectiveFrom'',
      opt_effectiveTo = member (listed_object x) ''effectiveTo'',
      opt_status = Some (listed_status x),
      opt_source = JStr ''import'',
      opt_tags = JUndef,
      opt_category = JUndef,
      opt_metadata = member (listed_object x) ''metadata'',
      opt_userId = JUndef\<rparr>"

fun import_turns :: "(nat \<Rightarrow> env) \<Rightarrow> register \<Rightarrow> nat \<Rightarrow> listed list \<Rightarrow> (string \<times> entry) list" where
  "import_turns evs reg i [] = []"
| "import_turns evs reg i (x # xs) =
     (or_default (Some (listed_id x)) (uuid (evs i)),
      added_entry (evs i) reg (import_document x) (import_add_options x))
     # import_turns evs reg (Suc i) xs"

lemma import_document_not_nullish: "\<not> nullish (import_document x)"
  by (cases x)
     (auto simp: import_document_def nullish_def or_else_def entry_object_def summary_object_def)

lemma added_entry_schemaId:
  "schemaId reg = schemaId reg0 \<Longrightarrow> added_entry ev reg d opts = added_entry ev reg0 d opts"
  by (simp add: added_entry_def)

lemma import_turns_schemaId:
  "schemaId reg = schemaId reg0 \<Longrightarrow> import_turns evs reg i xs = import_turns evs reg0 i xs"
  by (induction xs arbitrary: i) (simp_all add: added_entry_schemaId[of reg reg0])

lemma import_entry_step:
  assumes "skipExisting io \<longrightarrow> map_of (storage reg) (listed_id x) = None"
  shows "\<exists>res' reg'. import_entry ev rt io (res, reg) x = (res', reg')
      \<and> storage reg' = Map_set (storage reg) (or_default (Some (listed_id x)) (uuid ev))
                          (added_entry ev reg (import_document x) (import_add_options x))
      \<and> schemaId reg' = schemaId reg
      \<and> skipped res' = skipped res
      \<and> (imported res' = imported res + 1 \<and> import_errors res' = import_errors res
          \<or> imported res' = imported res
            \<and> import_errors res' = import_errors res @ [(listed_id x, TypeError)])"
proof -
  from add_present[OF import_document_not_nullish, of ev reg x "import_add_options x"]
  obtain out reg1 where a: "add ev reg (import_document x) (import_add_options x) = (out, reg1)"
      "storage reg1 = Map_set (storage reg) (or_default (Some (listed_id x)) (uuid ev))
                        (added_entry ev reg (import_document x) (import_add_options x))"
      "schemaId reg1 = schemaId reg"
      "out = Inl TypeError
       \<or> out = Inr \<lparr>added_id = or_default (Some (listed_id x)) (uuid ev), added_version = 1,
                      added_createdAt = now ev, added_status = ''created''\<rparr>"
    by (auto simp: import_add_options_def)
  have step: "import_entry ev rt io (res, reg) x
              = (case out of
                   Inl err \<Rightarrow>
                     (res\<lparr>import_errors := import_errors res @ [(listed_id x, err)]\<rparr>, reg1)
                 | Inr r \<Rightarrow> (res\<lparr>imported := imported res + 1\<rparr>, reg1))"
    using a(1)[unfolded import_document_def import_add_options_def] assms
    by (cases "skipExisting io"; cases out) (simp_all add: import_entry_def get_plain)
  from a(4) show ?thesis
  proof
    assume "out = Inl TypeError"
    with step a(2,3) show ?thesis by simp
  next
    assume "out = Inr \<lparr>added_id = or_default (Some (listed_id x)) (uuid ev), added_version = 1,
                      added_createdAt = now ev, added_status = ''created''\<rparr>"
    with step a(2,3) show ?thesis by simp
  qed
qed

text \<open>Writing a list of pairs to a \<open>Map\<close>, one \<open>set\<close> after the other.\<close>

definition store_all :: "(string \<times> entry) list \<Rightarrow> (string \<times> entry) list \<Rightarrow> (string \<times> entry) list" where
  "store_all m kes = foldl (\<lambda>m (k, e). Map_set m k e) m kes"

lemma map_of_store_all:
  "map_of (store_all m kes) k
   = (case map_of (rev kes) k of Some e \<Rightarrow> Some e | None \<Rightarrow> map_of m k)"
proof (induction kes arbitrary: m)
  case Nil
  show ?case by (simp add: store_all_def)
next
  case (Cons p kes)
  obtain k' e' where p: "p = (k', e')" by (cases p)
  have "store_all m (p # kes) = store_all (Map_set m k' e') kes"
    by (simp add: store_all_def p)
  then show ?case
    by (simp add: Cons.IH p map_of_Map_set map_add_def split: option.splits)
qed

lemma import_turns_elem:
  "(k, e) \<in> set (import_turns evs reg i xs) \<Longrightarrow>
   \<exists>x \<in> set xs. \<exists>n. k = or_default (Some (listed_id x)) (uuid (evs n))
      \<and> e = added_entry (evs n) reg (import_document x) (import_add_options x)"
  by (induction xs arbitrary: i) auto

lemma import_turns_key:
  "x \<in> set xs \<Longrightarrow> listed_id x \<noteq> [] \<Longrightarrow> listed_id x \<in> fst ` set (import_turns evs reg i xs)"
  by (induction xs arbitrary: i) (auto simp: or_default_def)

lemma import_turns_keys:
  "\<forall>x \<in> set xs. listed_id x \<noteq> [] \<Longrightarrow> map fst (import_turns evs reg i xs) = map listed_id xs"
  by (induction xs arbitrary: i) (auto simp: or_default_def)

lemma import_loop_storage:
  assumes "skipExisting io \<longrightarrow>
             distinct (map listed_id xs)
             \<and> (\<forall>x \<in> set xs. listed_id x \<noteq> [] \<and> map_of (storage reg) (listed_id x) = None)"
  shows "\<exists>res' reg'. import_loop evs rt io i (res, reg) xs = (res', reg')
      \<and> storage reg' = store_all (storage reg) (import_turns evs reg i xs)
      \<and> schemaId reg' = schemaId reg
      \<and> skipped res' = skipped res
      \<and> imported res' + length (import_errors res')
          = imported res + length (import_errors res) + length xs
      \<and> (\<forall>err \<in> set (import_errors res'). err \<in> set (import_errors res) \<or> snd err = TypeError)"
  using assms
proof (induction xs arbitrary: i res reg)
  case Nil
  show ?case by (simp add: store_all_def)
next
  case (Cons x xs)
  from Cons.prems have fresh: "skipExisting io \<longrightarrow> map_of (storage reg) (listed_id x) = None"
    by simp
  from import_entry_step[OF fresh, of "evs i" rt res]
  obtain res1 reg1 where s: "import_entry (evs i) rt io (res, reg) x = (res1, reg1)"
      "storage reg1 = Map_set (storage reg) (or_default (Some (listed_id x)) (uuid (evs i)))
                        (added_entry (evs i) reg (import_document x) (import_add_options x))"
      "schemaId reg1 = schemaId reg"
      "skipped res1 = skipped res"
      "imported res1 = imported res + 1 \<and> import_errors res1 = import_errors res
       \<or> imported res1 = imported res
         \<and> import_errors res1 = import_errors res @ [(listed_id x, TypeError)]"
    by blast
  have pre: "skipExisting io \<longrightarrow>
             distinct (map listed_id xs)
             \<and> (\<forall>y \<in> set xs. listed_id y \<noteq> [] \<and> map_of (storage reg1) (listed_id y) = None)"
  proof
    assume sk: "skipExisting io"
    with Cons.prems have d: "distinct (map listed_id (x # xs))"
      and f: "\<forall>y \<in> set (x # xs). listed_id y \<noteq> [] \<and> map_of (storage reg) (listed_id y) = None"
      by simp_all
    from f have key: "or_default (Some (listed_id x)) (uuid (evs i)) = listed_id x"
      by (simp add: or_default_def)
    have "map_of (storage reg1) (listed_id y) = None" if "y \<in> set xs" for y
    proof -
      from d have "listed_id x \<notin> listed_id ` set xs" by simp
      with that have "listed_id y \<noteq> listed_id x" by (metis imageI)
      with f that show ?thesis
        by (simp add: s(2) key map_of_Map_set)
    qed
    with d f show "distinct (map listed_id xs)
             \<and> (\<forall>y \<in> set xs. listed_id y \<noteq> [] \<and> map_of (storage reg1) (listed_id y) = None)"
      by simp
  qed
  from Cons.IH[OF pre, of "Suc i" res1]
  obtain res' reg' where r: "import_loop evs rt io (Suc i) (res1, reg1) xs = (res', reg')"
      "storage reg' = store_all (storage reg1) (import_turns evs reg1 (Suc i) xs)"
      "schemaId reg' = schemaId reg1"
      "skipped res' = skipped res1"
      "imported res' + length (import_errors res')
          = imported res1 + length (import_errors res1) + length xs"
      "\<forall>err \<in> set (import_errors res'). err \<in> set (import_errors res1) \<or> snd err = TypeError"
    by blast
  have 1: "import_loop evs rt io i (res, reg) (x # xs) = (res', reg')"
    by (simp add: s(1) r(1))
  have 2: "storage reg' = store_all (storage reg) (import_turns evs reg i (x # xs))"
    by (simp add: r(2) s(2) import_turns_schemaId[OF s(3)] store_all_def)
  have 3: "imported res' + length (import_errors res')
          = imported res + length (import_errors res) + length (x # xs)"
    using r(5) s(5) by auto
  have 4: "\<forall>err \<in> set (import_errors res'). err \<in> set (import_errors res) \<or> snd err = TypeError"
    using r(6) s(5) by auto
  from 1 2 3 4 r(3,4) s(3,4) show ?case
    by simp
qed

text \<open>
  Adding under a stored identifier. For a non-empty identifier of a stored entry and a
  document that is not null or undefined, \<open>add(document, {id})\<close> returns normally and
  puts in its place a fresh entry: version 1, empty history, created at the time of the
  call, active, holding the new document's data; every other entry stays as it was. One
  \<open>import\<close> of a payload object \<open>{entries: [...]}\<close> without \<open>skipExisting\<close> returns
  normally, skips nothing, counts every entry as imported or as a \<open>TypeError\<close>, and leaves
  for an identifier of the payload that was stored before a fresh entry made in one of
  its turns, of version 1 with an empty history.
\<close>

theorem add_existing_replaces:
  assumes "map_of (storage reg) ident = Some old" and "ident \<noteq> []"
      and "\<not> nullish document"
      and "\<not> skipExisting io" and "x \<in> set xs" and "listed_id x = ident"
  shows "(\<exists>r reg' e. add ev reg document (no_add_options\<lparr>opt_id := Some ident\<rparr>) = (Inr r, reg')
            \<and> added_id r = ident \<and> added_version r = 1
            \<and> map_of (storage reg') ident = Some e
            \<and> entry_id e = ident \<and> version e = 1 \<and> history e = []
            \<and> createdAt e = now ev \<and> updatedAt e = now ev \<and> status e = ''active''
            \<and> archival e = None
            \<and> data e = or_else (member document ''data'') document
            \<and> effectiveFrom e = JStr (now ev) \<and> effectiveTo e = JNull
            \<and> map fst (storage reg') = map fst (storage reg)
            \<and> (\<forall>k. k \<noteq> ident \<longrightarrow> map_of (storage reg') k = map_of (storage reg) k))
         \<and> (\<exists>res reg' e y n. import_entries evs rt reg (Payload (Some xs)) io = (Inr res, reg')
            \<and> skipped res = 0
            \<and> imported res + length (import_errors res) = length xs
            \<and> (\<forall>err \<in> set (import_errors res). snd err = TypeError)
            \<and> map_of (storage reg') ident = Some e
            \<and> y \<in> set xs \<and> (listed_id y = ident \<or> listed_id y = [])
            \<and> entry_id e = ident \<and> version e = 1 \<and> history e = [] \<and> archival e = None
            \<and> createdAt e = now (evs n)
            \<and> data e = or_else (member (or_else (member (listed_object y) ''data'')
                                            (listed_object y)) ''data'')
                         (or_else (member (listed_object y) ''data'') (listed_object y)))"
proof -
  from assms(1) have mem: "ident \<in> fst ` set (storage reg)"
    by (metis domI dom_map_of_conv_image_fst)
  let ?o = "no_add_options\<lparr>opt_id := Some ident\<rparr>"
  have oid: "or_default (opt_id ?o) (uuid ev) = ident"
    using assms(2) by (simp add: or_default_def)
  from add_present[OF assms(3), of ev reg ?o] updateIndexes_plain[OF added_entry_plain_tags]
  obtain out reg' where a: "add ev reg document ?o = (out, reg')"
      "storage reg' = Map_set (storage reg) ident (added_entry ev reg document ?o)"
      "out = Inr \<lparr>added_id = ident, added_version = 1,
                  added_createdAt = now ev, added_status = ''created''\<rparr>"
    unfolding oid by blast
  have 1: "\<exists>r reg' e. add ev reg document ?o = (Inr r, reg')
            \<and> added_id r = ident \<and> added_version r = 1
            \<and> map_of (storage reg') ident = Some e
            \<and> entry_id e = ident \<and> version e = 1 \<and> history e = []
            \<and> createdAt e = now ev \<and> updatedAt e = now ev \<and> status e = ''active''
            \<and> archival e = None
            \<and> data e = or_else (member document ''data'') document
            \<and> effectiveFrom e = JStr (now ev) \<and> effectiveTo e = JNull
            \<and> map fst (storage reg') = map fst (storage reg)
            \<and> (\<forall>k. k \<noteq> ident \<longrightarrow> map_of (storage reg') k = map_of (storage reg) k)"
    using a mem assms(2)
    by (simp add: map_of_Map_set map_fst_Map_set added_entry_def no_add_options_def
        or_default_def or_else_def)
  have pre: "skipExisting io \<longrightarrow>
             distinct (map listed_id xs)
             \<and> (\<forall>x \<in> set xs. listed_id x \<noteq> [] \<and> map_of (storage reg) (listed_id x) = None)"
    using assms(4) by simp
  let ?turns = "import_turns evs reg 0 xs"
  from import_loop_storage[OF pre, of evs rt 0 "\<lparr>imported = 0, skipped = 0, import_errors = []\<rparr>"]
  obtain res reg2 where l: "import_loop evs rt io 0
        (\<lparr>imported = 0, skipped = 0, import_errors = []\<rparr>, reg) xs = (res, reg2)"
      "storage reg2 = store_all (storage reg) ?turns"
      "skipped res = 0"
      "imported res + length (import_errors res) = length xs"
      "\<forall>err \<in> set (import_errors res). snd err = TypeError"
    by auto
  have imp: "import_entries evs rt reg (Payload (Some xs)) io = (Inr res, reg2)"
    by (simp add: import_entries_def l(1))
  from import_turns_key[OF assms(5), of evs reg 0] assms(2,6)
  have "ident \<in> fst ` set (rev ?turns)"
    by simp
  then obtain e where e: "map_of (rev ?turns) ident = Some e"
    by (metis domD dom_map_of_conv_image_fst)
  then have st: "map_of (storage reg2) ident = Some e"
    by (simp add: l(2) map_of_store_all)
  from e have "(ident, e) \<in> set ?turns"
    by (metis map_of_SomeD set_rev)
  from import_turns_elem[OF this]
  obtain y n where y: "y \<in> set xs" "ident = or_default (Some (listed_id y)) (uuid (evs n))"
      "e = added_entry (evs n) reg (import_document y) (import_add_options y)"
    by blast
  from y(2) assms(2) have yid: "listed_id y = ident \<or> listed_id y = []"
    by (auto simp: or_default_def split: if_splits)
  have fields: "entry_id e = ident" "version e = 1" "history e = []" "archival e = None"
      "createdAt e = now (evs n)"
      "data e = or_else (member (or_else (member (listed_object y) ''data'')
                                   (listed_object y)) ''data'')
                  (or_else (member (listed_object y) ''data'') (listed_object y))"
    using y(2) by (simp_all add: y(3) added_entry_def import_document_def import_add_options_def)
  from imp l(3,4,5) st y(1) yid fields
  have 2: "\<exists>res reg' e y n. import_entries evs rt reg (Payload (Some xs)) io = (Inr res, reg')
            \<and> skipped res = 0
            \<and> imported res + length (import_errors res) = length xs
            \<and> (\<forall>err \<in> set (import_errors res). snd err = TypeError)
            \<and> map_of (storage reg') ident = Some e
            \<and> y \<in> set xs \<and> (listed_id y = ident \<or> listed_id y = [])
            \<and> entry_id e = ident \<and> version e = 1 \<and> history e = [] \<and> archival e = None
            \<and> createdAt e = now (evs n)
            \<and> data e = or_else (member (or_else (member (listed_object y) ''data'')
                                            (listed_object y)) ''data'')
                         (or_else (member (listed_object y) ''data'') (listed_object y))"
    by blast
  from 1 2 show ?thesis
    by (rule conjI)
qed

theorem add_existing_replaces_witness:
  "\<exists>old.
     (map_of (storage reg_v3) ''doc'' = Some old \<and> ''doc'' \<noteq> [] \<and> \<not> nullish (amount_doc 7)
      \<and> \<not> skipExisting \<lparr>skipExisting = False\<rparr> \<and> Full old \<in> set [Full old]
      \<and> listed_id (Full old) = ''doc'')
     \<and> ((\<exists>r reg' e. add (ev_at ''2024-07-01T00:00:00.000Z'') reg_v3 (amount_doc 7)
                       (no_add_options\<lparr>opt_id := Some ''doc''\<rparr>) = (Inr r, reg')
            \<and> added_id r = ''doc'' \<and> added_version r = 1
            \<and> map_of (storage reg') ''doc'' = Some e
            \<and> entry_id e = ''doc'' \<and> version e = 1 \<and> history e = []
            \<and> createdAt e = now (ev_at ''2024-07-01T00:00:00.000Z'')
            \<and> updatedAt e = now (ev_at ''2024-07-01T00:00:00.000Z'') \<and> status e = ''active''
            \<and> archival e = None
            \<and> data e = or_else (member (amount_doc 7) ''data'') (amount_doc 7)
            \<and> effectiveFrom e = JStr (now (ev_at ''2024-07-01T00:00:00.000Z''))
            \<and> effectiveTo e = JNull
            \<and> map fst (storage reg') = map fst (storage reg_v3)
            \<and> (\<forall>k. k \<noteq> ''doc'' \<longrightarrow> map_of (storage reg') k = map_of (storage reg_v3) k))
         \<and> (\<exists>res reg' e y (n::nat).
              import_entries (\<lambda>i. ev_at ''2024-07-01T00:00:00.000Z'') example_runtime reg_v3
                (Payload (Some [Full old])) \<lparr>skipExisting = False\<rparr> = (Inr res, reg')
            \<and> skipped res = 0
            \<and> imported res + length (import_errors res) = length [Full old]
            \<and> (\<forall>err \<in> set (import_errors res). snd err = TypeError)
            \<and> map_of (storage reg') ''doc'' = Some e
            \<and> y \<in> set [Full old] \<and> (listed_id y = ''doc'' \<or> listed_id y = [])
            \<and> entry_id e = ''doc'' \<and> version e = 1 \<and> history e = [] \<and> archival e = None
            \<and> createdAt e = now (ev_at ''2024-07-01T00:00:00.000Z'')
            \<and> data e = or_else (member (or_else (member (listed_object y) ''data'')
                                            (listed_object y)) ''data'')
                         (or_else (member (listed_object y) ''data'') (listed_object y))))"
proof -
  obtain old where 1: "map_of (storage reg_v3) ''doc'' = Some old"
    and 6: "listed_id (Full old) = ''doc''"
    by (simp add: eval_defs)
  have 2: "''doc'' \<noteq> []" by simp
  have 3: "\<not> nullish (amount_doc 7)" by (simp add: nullish_def amount_doc_def)
  have 4: "\<not> skipExisting \<lparr>skipExisting = False\<rparr>" by simp
  have 5: "Full old \<in> set [Full old]" by simp
  note inst = add_existing_replaces[OF 1 2 3 4 5 6,
      where ev = "ev_at ''2024-07-01T00:00:00.000Z''" and rt = example_runtime
      and evs = "\<lambda>i. ev_at ''2024-07-01T00:00:00.000Z''"]
  show ?thesis
    by (intro exI[of _ old] conjI 1 2 3 4 5 6 inst[THEN conjunct1] inst[THEN conjunct2])
qed

text \<open>
  Claim C10. \<open>add\<close> under a stored identifier replaces the entry by a fresh one of
  version 1 with an empty history, and so \<open>import\<close> without \<open>skipExisting\<close> is to
  overwrite the entries it finds stored rather than fail. Given the payload object
  \<open>{entries: xs}\<close> it does: the entry \<open>doc\<close>, stored at version 3 with two history
  records, comes back at version 1 with none. Given the bare array \<open>xs\<close> of the same
  entries, which the loop header \<open>data.entries || data\<close> is written to take, it does not:
  \<open>data.entries\<close> is then the method \<open>Array.prototype.entries\<close>, the loop throws a
  \<open>TypeError\<close> before its first turn, and the register is left as it was.
\<close>

theorem import_bare_array_throws:
  "map listed_id (map (\<lambda>(k, e). Full e) (storage reg_v3)) = [''doc'']
   \<and> stored_versions reg_v3 = [(''doc'', 3, [1, 2])]
   \<and> map_prod id stored_versions
       (import_entries (\<lambda>i. ev_at ''2024-07-01T00:00:00.000Z'') example_runtime reg_v3
         (Payload (Some (map (\<lambda>(k, e). Full e) (storage reg_v3)))) \<lparr>skipExisting = False\<rparr>)
     = (Inr \<lparr>imported = 1, skipped = 0, import_errors = []\<rparr>, [(''doc'', 1, [])])
   \<and> import_entries (\<lambda>i. ev_at ''2024-07-01T00:00:00.000Z'') example_runtime reg_v3
       (Bare (map (\<lambda>(k, e). Full e) (storage reg_v3))) \<lparr>skipExisting = False\<rparr>
     = (Inl TypeError, reg_v3)"
  by (simp add: import_entries_def import_entry_def entry_object_def eval_defs)

text \<open>
  Claim C5. \<open>export\<close> followed by \<open>import\<close> into a fresh register is to give back,
  under every identifier, data, metadata and effective dates identical to the originals.
  For the entry \<open>doc\<close> it does. For the entry \<open>rule\<close>, whose stored record
  \<open>{title: 'Rule 1', data: 'payload'}\<close> has a field named \<open>data\<close>, it does not:
  \<open>import\<close> hands \<open>entry.data || entry\<close> to \<open>add\<close>, which reads \<open>document.data || document\<close>
  once more, and the entry comes back with the data \<open>'payload'\<close>.
\<close>

theorem export_import_unwraps_data:
  "map fst (storage reg_rule) = [''doc'', ''rule'']
   \<and> fst (round_trip reg_rule) = Inr \<lparr>imported = 2, skipped = 0, import_errors = []\<rparr>
   \<and> stored_fields reg_rule ''doc''
       = Some (JObj [(''amount'', JNum 200)],
               [(''schemaId'', JNull), (''schemaVersion'', JUndef), (''extractionId'', JUndef),
                (''confidence'', JUndef), (''source'', JNull), (''tags'', JArr []),
                (''category'', JNull)],
               JStr ''2025-01-01'', JNull)
   \<and> stored_fields (snd (round_trip reg_rule)) ''doc'' = stored_fields reg_rule ''doc''
   \<and> map_option fst (stored_fields reg_rule ''rule'')
       = Some (JObj [(''title'', JStr ''Rule 1''), (''data'', JStr ''payload'')])
   \<and> map_option fst (stored_fields (snd (round_trip reg_rule)) ''rule'') = Some (JStr ''payload'')"
  by (simp add: round_trip_def reg_rule_def stored_fields_def no_export_options_def export_def
      list_entries_def slice_def Array_sort_def
      import_entries_def import_entry_def entry_object_def eval_defs)

text \<open>
  The scoring as the specification words it, for the comparison with \<open>_matchesQuery\<close>: a
  query value is a literal or an operator object, which holds one predicate for each
  operator it has; each predicate has a fixed weight; the predicates of a field count
  when the entry has the field; the score is the sum of the weights of those that hold.
\<close>

datatype predicate =
  Literal jsval | Eq jsval | Contains jsval | Gt jsval | Lt jsval | Regex jsval jsval

fun weight :: "predicate \<Rightarrow> rat" where
  "weight (Literal v) = 1"
| "weight (Eq v) = 1"
| "weight (Regex p f) = 9 / 10"
| "weight (Contains v) = 8 / 10"
| "weight (Gt v) = 7 / 10"
| "weight (Lt v) = 7 / 10"

definition predicates_of :: "jsval \<Rightarrow> predicate list" where
  "predicates_of v =
     (if typeof v = T_object \<and> v \<noteq> JNull
      then (if member v ''$eq'' \<noteq> JUndef then [Eq (member v ''$eq'')] else [])
           @ (if member v ''$contains'' \<noteq> JUndef then [Contains (member v ''$contains'')] else [])
           @ (if member v ''$gt'' \<noteq> JUndef then [Gt (member v ''$gt'')] else [])
           @ (if member v ''$lt'' \<noteq> JUndef then [Lt (member v ''$lt'')] else [])
           @ (if member v ''$regex'' \<noteq> JUndef
              then [Regex (member v ''$regex'') (or_else (member v ''$flags'') (JStr ''i''))]
              else [])
      else [Literal v])"

fun holds :: "runtime \<Rightarrow> jsval \<Rightarrow> predicate \<Rightarrow> bool" where
  "holds rt fv (Literal v) = strict_eq fv v"
| "holds rt fv (Eq v) = strict_eq fv v"
| "holds rt fv (Contains v) = String_includes (String_of rt fv) (String_of rt v)"
| "holds rt fv (Gt v) = less rt v fv"
| "holds rt fv (Lt v) = less rt fv v"
| "holds rt fv (Regex p f) = (RegExp_test rt p f (String_of rt fv) = Some True)"

definition field_matches :: "runtime \<Rightarrow> jsval \<Rightarrow> string \<times> jsval \<Rightarrow> predicate list" where
  "field_matches rt dat q =
     (if getNestedValue dat (fst q) = JUndef then []
      else filter (holds rt (getNestedValue dat (fst q))) (predicates_of (snd q)))"

definition matching_predicates :: "runtime \<Rightarrow> jsval \<Rightarrow> (string \<times> jsval) list \<Rightarrow> predicate list" where
  "matching_predicates rt dat query = concat (map (field_matches rt dat) query)"

definition spec_score :: "runtime \<Rightarrow> jsval \<Rightarrow> (string \<times> jsval) list \<Rightarrow> rat" where
  "spec_score rt dat query = sum_list (map weight (matching_predicates rt dat query))"

lemma score_hit [simp]: "score (hit m w f) = score m + w" "matched (hit m w f) = True"
  by (simp_all add: hit_def)

lemma match_field_undefined:
  "getNestedValue dat (fst q) = JUndef \<Longrightarrow> match_field rt dat m q = Inr m"
  by (simp add: match_field_def Let_def)

lemma match_field_literal:
  assumes "getNestedValue dat (fst q) \<noteq> JUndef" and "\<not> (typeof (snd q) = T_object \<and> snd q \<noteq> JNull)"
      and "match_field rt dat m q = Inr m'"
  shows "score m' = score m + sum_list (map weight (field_matches rt dat q))
         \<and> matched m' = (matched m \<or> field_matches rt dat q \<noteq> [])"
proof -
  from assms(1) have c1: "(getNestedValue dat (fst q) = JUndef) = False"
    by simp
  from assms(2) have c2: "(typeof (snd q) = T_object \<and> snd q \<noteq> JNull) = False"
    by simp
  have mf: "match_field rt dat m q
            = (if strict_eq (getNestedValue dat (fst q)) (snd q) then Inr (hit m 1 (fst q))
               else Inr m)"
    unfolding match_field_def Let_def c1 c2 if_False ..
  have fm: "field_matches rt dat q
            = (if strict_eq (getNestedValue dat (fst q)) (snd q) then [Literal (snd q)] else [])"
    unfolding field_matches_def predicates_of_def c1 c2 if_False by simp
  show ?thesis
  proof (cases "strict_eq (getNestedValue dat (fst q)) (snd q)")
    case True
    with assms(3) mf have "m' = hit m 1 (fst q)" by simp
    with True fm show ?thesis by simp
  next
    case False
    with assms(3) mf have "m' = m" by simp
    with False fm show ?thesis by simp
  qed
qed

lemma filter_if_single:
  "filter P (if c then [p] else []) = (if c \<and> P p then [p] else [])"
  by simp

lemma match_field_operators:
  assumes fv: "getNestedValue dat (fst q) \<noteq> JUndef"
      and ob: "typeof (snd q) = T_object \<and> snd q \<noteq> JNull"
      and res: "match_field rt dat m q = Inr m'"
  shows "score m' = score m + sum_list (map weight (field_matches rt dat q))
         \<and> matched m' = (matched m \<or> field_matches rt dat q \<noteq> [])"
proof -
  define fieldValue where "fieldValue = getNestedValue dat (fst q)"
  define v where "v = snd q"
  define b1 where "b1 \<longleftrightarrow> member v ''$eq'' \<noteq> JUndef \<and> strict_eq fieldValue (member v ''$eq'')"
  define b2 where "b2 \<longleftrightarrow> member v ''$contains'' \<noteq> JUndef
     \<and> String_includes (String_of rt fieldValue) (String_of rt (member v ''$contains''))"
  define b3 where "b3 \<longleftrightarrow> member v ''$gt'' \<noteq> JUndef \<and> less rt (member v ''$gt'') fieldValue"
  define b4 where "b4 \<longleftrightarrow> member v ''$lt'' \<noteq> JUndef \<and> less rt fieldValue (member v ''$lt'')"
  define rx where "rx = (if member v ''$regex'' \<noteq> JUndef
     then RegExp_test rt (member v ''$regex'') (or_else (member v ''$flags'') (JStr ''i''))
            (String_of rt fieldValue)
     else Some False)"
  define m1 where "m1 = (if b1 then hit m 1 (fst q) else m)"
  define m2 where "m2 = (if b2 then hit m1 (8 / 10) (fst q) else m1)"
  define m3 where "m3 = (if b3 then hit m2 (7 / 10) (fst q) else m2)"
  define m4 where "m4 = (if b4 then hit m3 (7 / 10) (fst q) else m3)"
  have mf: "match_field rt dat m q
            = (case rx of None \<Rightarrow> Inl SyntaxError
               | Some True \<Rightarrow> Inr (hit m4 (9 / 10) (fst q))
               | Some False \<Rightarrow> Inr m4)"
  proof -
    from fv have c1: "(getNestedValue dat (fst q) = JUndef) = False"
      by simp
    from ob have c2: "(typeof (snd q) = T_object \<and> snd q \<noteq> JNull) = True"
      by simp
    show ?thesis
    proof (cases "member v ''$regex'' \<noteq> JUndef")
      case True
      then have c3: "(member (snd q) ''$regex'' \<noteq> JUndef) = True"
        by (simp add: v_def)
      from True have "rx = RegExp_test rt (member v ''$regex'')
                             (or_else (member v ''$flags'') (JStr ''i'')) (String_of rt fieldValue)"
        by (simp add: rx_def)
      then show ?thesis
        unfolding match_field_def Let_def c1 c2 c3 if_False if_True
          fieldValue_def v_def b1_def b2_def b3_def b4_def m1_def m2_def m3_def m4_def
        by (simp only:)
    next
      case False
      then have c3: "(member (snd q) ''$regex'' \<noteq> JUndef) = False"
        by (simp add: v_def)
      from False have "rx = Some False"
        by (simp add: rx_def)
      then show ?thesis
        unfolding match_field_def Let_def c1 c2 c3 if_False if_True
          fieldValue_def v_def b1_def b2_def b3_def b4_def m1_def m2_def m3_def m4_def
        by (simp only: option.case bool.case)
    qed
  qed
  have s4: "score m4 = score m + (if b1 then 1 else 0) + (if b2 then 8 / 10 else 0)
              + (if b3 then 7 / 10 else 0) + (if b4 then 7 / 10 else 0)"
    by (simp add: m1_def m2_def m3_def m4_def)
  have t4: "matched m4 = (matched m \<or> b1 \<or> b2 \<or> b3 \<or> b4)"
    by (simp add: m1_def m2_def m3_def m4_def)
  have fm: "field_matches rt dat q
            = (if b1 then [Eq (member v ''$eq'')] else [])
              @ (if b2 then [Contains (member v ''$contains'')] else [])
              @ (if b3 then [Gt (member v ''$gt'')] else [])
              @ (if b4 then [Lt (member v ''$lt'')] else [])
              @ (if rx = Some True
                 then [Regex (member v ''$regex'') (or_else (member v ''$flags'') (JStr ''i''))]
                 else [])"
  proof -
    have "field_matches rt dat q = filter (holds rt fieldValue) (predicates_of v)"
      using fv by (simp add: field_matches_def fieldValue_def v_def)
    also have "predicates_of v
       = (if member v ''$eq'' \<noteq> JUndef then [Eq (member v ''$eq'')] else [])
         @ (if member v ''$contains'' \<noteq> JUndef then [Contains (member v ''$contains'')] else [])
         @ (if member v ''$gt'' \<noteq> JUndef then [Gt (member v ''$gt'')] else [])
         @ (if member v ''$lt'' \<noteq> JUndef then [Lt (member v ''$lt'')] else [])
         @ (if member v ''$regex'' \<noteq> JUndef
            then [Regex (member v ''$regex'') (or_else (member v ''$flags'') (JStr ''i''))]
            else [])"
      using ob by (simp only: predicates_of_def v_def if_True simp_thms)
    also have "filter (holds rt fieldValue) \<dots>
       = (if b1 then [Eq (member v ''$eq'')] else [])
         @ (if b2 then [Contains (member v ''$contains'')] else [])
         @ (if b3 then [Gt (member v ''$gt'')] else [])
         @ (if b4 then [Lt (member v ''$lt'')] else [])
         @ (if member v ''$regex'' \<noteq> JUndef
               \<and> holds rt fieldValue
                     (Regex (member v ''$regex'') (or_else (member v ''$flags'') (JStr ''i'')))
            then [Regex (member v ''$regex'') (or_else (member v ''$flags'') (JStr ''i''))]
            else [])"
      by (simp only: filter_append filter_if_single holds.simps b1_def b2_def b3_def b4_def)
    also have "(member v ''$regex'' \<noteq> JUndef
               \<and> holds rt fieldValue
                     (Regex (member v ''$regex'') (or_else (member v ''$flags'') (JStr ''i''))))
               \<longleftrightarrow> rx = Some True"
      by (simp add: rx_def)
    finally show ?thesis .
  qed
  have sw: "sum_list (map weight (field_matches rt dat q))
            = (if b1 then 1 else 0) + (if b2 then 8 / 10 else 0)
              + (if b3 then 7 / 10 else 0) + (if b4 then 7 / 10 else 0)
              + (if rx = Some True then 9 / 10 else 0)"
    by (simp only: fm map_append sum_list_append) simp
  have ne: "field_matches rt dat q \<noteq> [] \<longleftrightarrow> b1 \<or> b2 \<or> b3 \<or> b4 \<or> rx = Some True"
    by (simp only: fm append_is_Nil_conv) simp
  show ?thesis
  proof (cases rx)
    case None
    with res mf show ?thesis by simp
  next
    case (Some b)
    show ?thesis
    proof (cases b)
      case True
      with Some res mf have "m' = hit m4 (9 / 10) (fst q)" by simp
      with Some True show ?thesis
        by (simp add: s4 t4 sw ne)
    next
      case False
      with Some res mf have "m' = m4" by simp
      with Some False show ?thesis
        by (simp add: s4 t4 sw ne)
    qed
  qed
qed

lemma match_field_score:
  assumes "match_field rt dat m q = Inr m'"
  shows "score m' = score m + sum_list (map weight (field_matches rt dat q))
         \<and> matched m' = (matched m \<or> field_matches rt dat q \<noteq> [])"
proof (cases "getNestedValue dat (fst q) = JUndef")
  case True
  with assms match_field_undefined[OF True, of rt m] show ?thesis
    by (simp add: field_matches_def)
next
  case False
  show ?thesis
  proof (cases "typeof (snd q) = T_object \<and> snd q \<noteq> JNull")
    case True
    from match_field_operators[OF False True assms] show ?thesis .
  next
    case no: False
    from match_field_literal[OF False no assms] show ?thesis .
  qed
qed

lemma matchesQuery_loop_score:
  assumes "matchesQuery_loop rt dat m query = Inr m'"
  shows "score m' = score m + spec_score rt dat query
         \<and> matched m' = (matched m \<or> matching_predicates rt dat query \<noteq> [])"
  using assms
proof (induction query arbitrary: m)
  case Nil
  then show ?case by (simp add: spec_score_def matching_predicates_def)
next
  case (Cons q qs)
  from Cons.prems obtain m1 where 1: "match_field rt dat m q = Inr m1"
    and 2: "matchesQuery_loop rt dat m1 qs = Inr m'"
    by (auto split: sum.splits)
  from match_field_score[OF 1] Cons.IH[OF 2] show ?case
    by (auto simp: spec_score_def matching_predicates_def)
qed

lemma matchesQuery_score:
  assumes "matchesQuery rt dat query = Inr m"
  shows "score m = spec_score rt dat query"
    and "matched m = (matching_predicates rt dat query \<noteq> [])"
  using matchesQuery_loop_score[OF assms[unfolded matchesQuery_def]] by simp_all

lemma search_loop_hits:
  assumes "search_loop rt query es = Inr hits"
  shows "\<forall>h \<in> set hits. hit_entry h \<in> set es
           \<and> matchScore h = spec_score rt (data (hit_entry h)) query
           \<and> matching_predicates rt (data (hit_entry h)) query \<noteq> []"
  using assms
proof (induction es arbitrary: hits)
  case Nil
  then show ?case by simp
next
  case (Cons e es)
  from Cons.prems obtain m hs where 1: "matchesQuery rt (data e) query = Inr m"
    and 2: "search_loop rt query es = Inr hs"
    and 3: "hits = (if matched m
                    then \<lparr>hit_entry = e, matchScore = score m, matchedFields = match_fields m\<rparr> # hs
                    else hs)"
    by (auto split: sum.splits)
  from Cons.IH[OF 2] matchesQuery_score[OF 1] 3 show ?case
    by auto
qed

lemma set_insert_by: "set (insert_by cmp x ys) = insert x (set ys)"
  by (induction ys) auto

lemma set_Array_sort: "set (Array_sort cmp xs) = set xs"
proof -
  have "set (foldl (\<lambda>acc x. insert_by cmp x acc) acc xs) = set acc \<union> set xs" for acc
    by (induction xs arbitrary: acc) (auto simp: set_insert_by)
  then show ?thesis by (simp add: Array_sort_def)
qed

lemma sorted_insert_by:
  assumes "sorted_wrt (\<lambda>a b. key a \<ge> key b) ys"
  shows "sorted_wrt (\<lambda>a b. (key a :: rat) \<ge> key b) (insert_by (\<lambda>a b. key b - key a) x ys)"
  using assms
  by (induction ys) (auto simp: set_insert_by)

lemma sorted_Array_sort:
  "sorted_wrt (\<lambda>a b. (key a :: rat) \<ge> key b) (Array_sort (\<lambda>a b. key b - key a) xs)"
proof -
  have "sorted_wrt (\<lambda>a b. key a \<ge> key b) acc \<Longrightarrow>
        sorted_wrt (\<lambda>a b. key a \<ge> key b) (foldl (\<lambda>acc x. insert_by (\<lambda>a b. key b - key a) x acc) acc xs)"
    for acc
    by (induction xs arbitrary: acc) (auto simp: sorted_insert_by)
  then show ?thesis by (simp add: Array_sort_def)
qed

lemma sorted_wrt_take: "sorted_wrt P xs \<Longrightarrow> sorted_wrt P (take n xs)"
  by (metis append_take_drop_id sorted_wrt_append)

text \<open>
  Claim C8. When \<open>search\<close> returns, every result is a stored entry whose \<open>matchScore\<close>
  is the sum of the weights of the query's predicates that hold on its data (1 for a
  literal or \<open>$eq\<close>, 0.9 for \<open>$regex\<close>, 0.8 for \<open>$contains\<close>, 0.7 for \<open>$gt\<close> and
  \<open>$lt\<close>), the results are in descending order of that score, and an entry on which no
  predicate holds is not among them. (Scores are added as exact numbers.)
\<close>

theorem search_scores_ranked:
  assumes "search rt reg query limit = Inr res"
  shows "(\<forall>h \<in> set (results res).
            hit_entry h \<in> snd ` set (storage reg)
            \<and> matchScore h = spec_score rt (data (hit_entry h)) query
            \<and> matching_predicates rt (data (hit_entry h)) query \<noteq> [])
         \<and> sorted_wrt (\<lambda>a b. matchScore a \<ge> matchScore b) (results res)
         \<and> (\<forall>e \<in> snd ` set (storage reg).
               matching_predicates rt (data e) query = [] \<longrightarrow> e \<notin> hit_entry ` set (results res))"
proof -
  from assms obtain found where f: "search_loop rt query (map snd (storage reg)) = Inr found"
    and r: "results res = take (if limit = 0 then 50 else limit)
                            (Array_sort (\<lambda>a b. matchScore b - matchScore a) found)"
    by (auto simp: search_def Let_def split: sum.splits)
  have sub: "set (results res) \<subseteq> set found"
    unfolding r using set_take_subset[of _ "Array_sort (\<lambda>a b. matchScore b - matchScore a) found"]
    by (simp only: set_Array_sort)
  from search_loop_hits[OF f] sub
  have 1: "\<forall>h \<in> set (results res).
            hit_entry h \<in> snd ` set (storage reg)
            \<and> matchScore h = spec_score rt (data (hit_entry h)) query
            \<and> matching_predicates rt (data (hit_entry h)) query \<noteq> []"
    by auto
  have 2: "sorted_wrt (\<lambda>a b. matchScore a \<ge> matchScore b) (results res)"
    unfolding r by (rule sorted_wrt_take) (rule sorted_Array_sort)
  from 1 have 3: "\<forall>e \<in> snd ` set (storage reg).
               matching_predicates rt (data e) query = [] \<longrightarrow> e \<notin> hit_entry ` set (results res)"
    by blast
  from 1 2 3 show ?thesis
    by blast
qed

lemmas search_defs =
  search_def search_loop.simps matchesQuery_def matchesQuery_loop.simps match_field_def
  getNestedValue_def hit_def Array_sort_def amount_query_def reg_two_def


theorem search_scores_ranked_witness:
  "\<exists>res. search example_runtime reg_two amount_query 0 = Inr res
     \<and> map (\<lambda>h. (entry_id (hit_entry h), matchScore h)) (results res) = [(''doc'', 14 / 10), (''other'', 7 / 10)]
     \<and> (\<forall>h \<in> set (results res).
            hit_entry h \<in> snd ` set (storage reg_two)
            \<and> matchScore h = spec_score example_runtime (data (hit_entry h)) amount_query
            \<and> matching_predicates example_runtime (data (hit_entry h)) amount_query \<noteq> [])
     \<and> sorted_wrt (\<lambda>a b. matchScore a \<ge> matchScore b) (results res)
     \<and> (\<forall>e \<in> snd ` set (storage reg_two).
           matching_predicates example_runtime (data e) amount_query = []
           \<longrightarrow> e \<notin> hit_entry ` set (results res))"
proof -
  have "\<exists>res. search example_runtime reg_two amount_query 0 = Inr res
    \<and> map (\<lambda>h. (entry_id (hit_entry h), matchScore h)) (results res) = [(''doc'', 14 / 10), (''other'', 7 / 10)]"
    by (simp add: search_defs eval_defs)
  then obtain res where r: "search example_runtime reg_two amount_query 0 = Inr res"
    and v: "map (\<lambda>h. (entry_id (hit_entry h), matchScore h)) (results res) = [(''doc'', 14 / 10), (''other'', 7 / 10)]"
    by (elim exE conjE)
  from search_scores_ranked[OF r] r v show ?thesis
    by (intro exI[of _ res]) simp
qed

end
